theory Spec2Isabelle
  imports Complex_Main
begin

section \<open>Values, errors and outcomes\<close>

text \<open>
  The driver is Python. A Python float is an IEEE 754 binary64 value: \<open>Float x\<close> for a finite
  one, where \<open>x\<close> is a real that the format holds, the two infinities, and NaN. The sign of
  a zero is not kept; it shows only in how a zero is printed.
\<close>

datatype pyfloat = Float real | PlusInf | MinusInf | NaN

text \<open>
  An argument that the source inspects with \<open>isinstance\<close>, converts with \<open>float(...)\<close>,
  stores in a field or feeds to arithmetic is a \<open>pyval\<close>.
\<close>

datatype pyval = PyInt int | PyFloat pyfloat | PyStr string | PyNone

datatype error =
  TypeError | ValueError | RuntimeError | ZeroDivisionError | OverflowError | AttributeError

text \<open>
  A call either returns a value or raises; in both cases the state it leaves behind is
  kept, because the traffic sent before an exception stays sent. A call that never comes
  back (a polling loop that is never released, a ramp that never arrives) is \<open>None\<close>.
\<close>

datatype ('a, 's) outcome = Return 'a 's | Raise error 's

type_synonym ('a, 's) run = "('a, 's) outcome option"

definition and_then :: "('a, 's) run \<Rightarrow> ('a \<Rightarrow> 's \<Rightarrow> ('b, 's) run) \<Rightarrow> ('b, 's) run" where
  "and_then m f =
     (case m of
        None \<Rightarrow> None
      | Some (Raise e s) \<Rightarrow> Some (Raise e s)
      | Some (Return a s) \<Rightarrow> f a s)"

fun final_state :: "('a, 's) outcome \<Rightarrow> 's" where
  "final_state (Return a s) = s"
| "final_state (Raise e s) = s"

text \<open>An expression that touches no state: its value is returned, its exception raised.\<close>

definition evaluate :: "error + 'a \<Rightarrow> 's \<Rightarrow> ('a, 's) run" where
  "evaluate r s = (case r of Inl e \<Rightarrow> Some (Raise e s) | Inr a \<Rightarrow> Some (Return a s))"

section \<open>Floating-point arithmetic\<close>

text \<open>
  Rounding to binary64, to nearest with ties to even. \<open>exponent x\<close> is the \<open>e\<close> with
  \<open>2\<^sup>e \<le> \<bar>x\<bar> < 2\<^sup>e\<^sup>+\<^sup>1\<close>; the doubles around \<open>x\<close> are the multiples of \<open>quantum x\<close>, which is
  \<open>2\<^sup>e\<^sup>-\<^sup>5\<^sup>2\<close> for a normal number and \<open>2\<^sup>-\<^sup>1\<^sup>0\<^sup>7\<^sup>4\<close> below \<open>2\<^sup>-\<^sup>1\<^sup>0\<^sup>2\<^sup>2\<close>.
\<close>

definition exponent :: "real \<Rightarrow> int" where
  "exponent x = \<lfloor>log 2 \<bar>x\<bar>\<rfloor>"

definition round_half_even :: "real \<Rightarrow> int" where
  "round_half_even y =
     (let n = \<lfloor>y\<rfloor> in
      if y - of_int n < 1 / 2 then n
      else if 1 / 2 < y - of_int n then n + 1
      else if even n then n else n + 1)"

definition quantum :: "real \<Rightarrow> real" where
  "quantum x = 2 powi (max (exponent x) (- 1022) - 52)"

definition round_double :: "real \<Rightarrow> real" where
  "round_double x = quantum x * of_int (round_half_even (x / quantum x))"

text \<open>
  A result overflows when it rounds to \<open>2\<^sup>1\<^sup>0\<^sup>2\<^sup>4\<close> or beyond. The operators \<open>+\<close>, \<open>-\<close>, \<open>*\<close>
  and \<open>/\<close> on floats then give an infinity; \<open>**\<close> and the conversion of an \<open>int\<close> raise
  \<open>OverflowError\<close>.
\<close>

definition too_large :: "real \<Rightarrow> bool" where
  "too_large x \<longleftrightarrow> 2 ^ 1024 \<le> \<bar>round_double x\<bar>"

definition is_double :: "real \<Rightarrow> bool" where
  "is_double x \<longleftrightarrow> round_double x = x \<and> \<bar>x\<bar> < 2 ^ 1024"

definition rounded :: "real \<Rightarrow> pyfloat" where
  "rounded x =
     (if too_large x then (if 0 < x then PlusInf else MinusInf)
      else Float (round_double x))"

fun float_neg :: "pyfloat \<Rightarrow> pyfloat" where
  "float_neg (Float x) = Float (- x)"
| "float_neg PlusInf = MinusInf"
| "float_neg MinusInf = PlusInf"
| "float_neg NaN = NaN"

fun float_add :: "pyfloat \<Rightarrow> pyfloat \<Rightarrow> pyfloat" where
  "float_add (Float x) (Float y) = rounded (x + y)"
| "float_add (Float x) PlusInf = PlusInf"
| "float_add (Float x) MinusInf = MinusInf"
| "float_add PlusInf (Float y) = PlusInf"
| "float_add PlusInf PlusInf = PlusInf"
| "float_add PlusInf MinusInf = NaN"
| "float_add MinusInf (Float y) = MinusInf"
| "float_add MinusInf MinusInf = MinusInf"
| "float_add MinusInf PlusInf = NaN"
| "float_add NaN b = NaN"
| "float_add a NaN = NaN"

definition float_sub :: "pyfloat \<Rightarrow> pyfloat \<Rightarrow> pyfloat" where
  "float_sub a b = float_add a (float_neg b)"

fun float_mul :: "pyfloat \<Rightarrow> pyfloat \<Rightarrow> pyfloat" where
  "float_mul (Float x) (Float y) = rounded (x * y)"
| "float_mul (Float x) PlusInf = (if x = 0 then NaN else if 0 < x then PlusInf else MinusInf)"
| "float_mul (Float x) MinusInf = (if x = 0 then NaN else if 0 < x then MinusInf else PlusInf)"
| "float_mul PlusInf (Float y) = (if y = 0 then NaN else if 0 < y then PlusInf else MinusInf)"
| "float_mul MinusInf (Float y) = (if y = 0 then NaN else if 0 < y then MinusInf else PlusInf)"
| "float_mul PlusInf PlusInf = PlusInf"
| "float_mul PlusInf MinusInf = MinusInf"
| "float_mul MinusInf PlusInf = MinusInf"
| "float_mul MinusInf MinusInf = PlusInf"
| "float_mul NaN b = NaN"
| "float_mul a NaN = NaN"

text \<open>\<open>a / b\<close> on floats raises on a zero divisor, whatever \<open>a\<close> is.\<close>

fun float_div :: "pyfloat \<Rightarrow> pyfloat \<Rightarrow> error + pyfloat" where
  "float_div a (Float y) =
     (if y = 0 then Inl ZeroDivisionError
      else
        Inr (case a of
               Float x \<Rightarrow> rounded (x / y)
             | PlusInf \<Rightarrow> (if 0 < y then PlusInf else MinusInf)
             | MinusInf \<Rightarrow> (if 0 < y then MinusInf else PlusInf)
             | NaN \<Rightarrow> NaN))"
| "float_div (Float x) PlusInf = Inr (Float 0)"
| "float_div (Float x) MinusInf = Inr (Float 0)"
| "float_div a b = Inr NaN"

text \<open>Comparisons; every comparison with NaN is false.\<close>

fun float_less :: "pyfloat \<Rightarrow> pyfloat \<Rightarrow> bool" where
  "float_less (Float x) (Float y) \<longleftrightarrow> x < y"
| "float_less (Float x) PlusInf \<longleftrightarrow> True"
| "float_less (Float x) MinusInf \<longleftrightarrow> False"
| "float_less MinusInf (Float y) \<longleftrightarrow> True"
| "float_less MinusInf PlusInf \<longleftrightarrow> True"
| "float_less MinusInf MinusInf \<longleftrightarrow> False"
| "float_less PlusInf b \<longleftrightarrow> False"
| "float_less NaN b \<longleftrightarrow> False"
| "float_less a NaN \<longleftrightarrow> False"

fun float_le :: "pyfloat \<Rightarrow> pyfloat \<Rightarrow> bool" where
  "float_le (Float x) (Float y) \<longleftrightarrow> x \<le> y"
| "float_le (Float x) PlusInf \<longleftrightarrow> True"
| "float_le (Float x) MinusInf \<longleftrightarrow> False"
| "float_le MinusInf (Float y) \<longleftrightarrow> True"
| "float_le MinusInf PlusInf \<longleftrightarrow> True"
| "float_le MinusInf MinusInf \<longleftrightarrow> True"
| "float_le PlusInf PlusInf \<longleftrightarrow> True"
| "float_le PlusInf (Float y) \<longleftrightarrow> False"
| "float_le PlusInf MinusInf \<longleftrightarrow> False"
| "float_le NaN b \<longleftrightarrow> False"
| "float_le a NaN \<longleftrightarrow> False"

text \<open>\<open>float(i)\<close> of an \<open>int\<close>: the nearest double, or \<open>OverflowError\<close>.\<close>

definition float_of_int :: "int \<Rightarrow> error + pyfloat" where
  "float_of_int i =
     (if too_large (of_int i) then Inl OverflowError
      else Inr (Float (round_double (of_int i))))"

text \<open>
  Arithmetic between a float and a value taken from a field. An \<open>int\<close> operand is converted
  first, which can overflow; anything that is not a number is a \<open>TypeError\<close>. A comparison
  converts nothing: Python compares a float with an \<open>int\<close> exactly.
\<close>

fun as_float :: "pyval \<Rightarrow> error + pyfloat" where
  "as_float (PyInt i) = float_of_int i"
| "as_float (PyFloat f) = Inr f"
| "as_float (PyStr s) = Inl TypeError"
| "as_float PyNone = Inl TypeError"

definition float_plus :: "pyfloat \<Rightarrow> pyval \<Rightarrow> error + pyfloat" where
  "float_plus a b = (case as_float b of Inl e \<Rightarrow> Inl e | Inr f \<Rightarrow> Inr (float_add a f))"

definition float_minus :: "pyfloat \<Rightarrow> pyval \<Rightarrow> error + pyfloat" where
  "float_minus a b = (case as_float b of Inl e \<Rightarrow> Inl e | Inr f \<Rightarrow> Inr (float_sub a f))"

fun greater_than :: "pyfloat \<Rightarrow> pyval \<Rightarrow> error + bool" where
  "greater_than a (PyInt i) = Inr (float_less (Float (of_int i)) a)"
| "greater_than a (PyFloat f) = Inr (float_less f a)"
| "greater_than a (PyStr s) = Inl TypeError"
| "greater_than a PyNone = Inl TypeError"

text \<open>
  \<open>a / b\<close> on two values taken from fields. Two \<open>int\<close>s are divided exactly and the quotient
  is rounded once; otherwise the \<open>int\<close> operand, if any, is converted and the floats are
  divided.
\<close>

fun true_divide :: "pyval \<Rightarrow> pyval \<Rightarrow> error + pyfloat" where
  "true_divide (PyInt i) (PyInt j) =
     (if j = 0 then Inl ZeroDivisionError
      else if too_large (of_int i / of_int j) then Inl OverflowError
      else Inr (Float (round_double (of_int i / of_int j))))"
| "true_divide (PyStr s) b = Inl TypeError"
| "true_divide PyNone b = Inl TypeError"
| "true_divide a (PyStr s) = Inl TypeError"
| "true_divide a PyNone = Inl TypeError"
| "true_divide a b =
     (case as_float a of
        Inl e \<Rightarrow> Inl e
      | Inr x \<Rightarrow> (case as_float b of Inl e \<Rightarrow> Inl e | Inr y \<Rightarrow> float_div x y))"

text \<open>
  \<open>(x**2)**.5\<close>, the source's way of taking an absolute value. \<open>**\<close> on floats is the
  \<open>pow\<close> of the C library, taken here as correctly rounded; it raises \<open>OverflowError\<close> when
  the square overflows, and a square that underflows is rounded like any other, down to 0.
\<close>

fun root_of_square :: "pyfloat \<Rightarrow> error + pyfloat" where
  "root_of_square (Float x) =
     (if too_large (x * x) then Inl OverflowError
      else Inr (Float (round_double (sqrt (round_double (x * x))))))"
| "root_of_square PlusInf = Inr PlusInf"
| "root_of_square MinusInf = Inr PlusInf"
| "root_of_square NaN = Inr NaN"

text \<open>
  The same on an argument. The square of an \<open>int\<close> is an \<open>int\<close>, exact; \<open>**.5\<close> then converts
  it to a float. Anything else than a number is a \<open>TypeError\<close>.
\<close>

fun square_root_of_square :: "pyval \<Rightarrow> error + pyfloat" where
  "square_root_of_square (PyInt i) =
     (if too_large (of_int (i * i)) then Inl OverflowError
      else Inr (Float (round_double (sqrt (round_double (of_int (i * i)))))))"
| "square_root_of_square (PyFloat x) = root_of_square x"
| "square_root_of_square (PyStr s) = Inl TypeError"
| "square_root_of_square PyNone = Inl TypeError"

text \<open>\<open>self._polarity * x\<close>: an \<open>int\<close> times a float.\<close>

definition times_polarity :: "int \<Rightarrow> pyfloat \<Rightarrow> error + pyfloat" where
  "times_polarity p x = (case float_of_int p of Inl e \<Rightarrow> Inl e | Inr f \<Rightarrow> Inr (float_mul f x))"

text \<open>
  \<open>time.sleep(seconds)\<close> on a float turns the length into whole nanoseconds, which must fit
  64 bits, and refuses NaN and negative lengths. Otherwise it returns, after that long.
\<close>

fun sleep :: "pyfloat \<Rightarrow> error + unit" where
  "sleep NaN = Inl ValueError"
| "sleep PlusInf = Inl OverflowError"
| "sleep MinusInf = Inl OverflowError"
| "sleep (Float seconds) =
     (let nanoseconds = round_double (seconds * 10 ^ 9) in
      if nanoseconds < - (2 ^ 63) \<or> 2 ^ 63 \<le> nanoseconds then Inl OverflowError
      else if nanoseconds < 0 then Inl ValueError
      else Inr ())"

section \<open>The instrument behind the VISA resource\<close>

text \<open>
  Messages of \<open>self._resource.write\<close> and \<open>self._resource.query\<close>. The f-strings of the
  source are kept structured: the command word and, for each formatted argument, the float
  that its decimal text denotes.
\<close>

datatype message =
    OUTPUT string
  | SOURCE_VOLT_LEV pyfloat
  | SOURCE_VOLT_ILIM pyfloat
  | SYSTEM_BEEPER pyfloat pyfloat

datatype question = IDN | OUTPUT_STATE | SOUR_VOLT | SOUR_VOLT_ILIM | MEASURE_VOLT | MEASURE_CURRENT

datatype event = Write message | Query question | Read

text \<open>
  The pyvisa resource and the instrument at its other end are not code of the repository.
  They are modelled as an instrument that stores what it is told and reports it back:
  a voltage level, a current limit and an output state, together with the list of every
  message that crossed the link. \<open>output_answer\<close> is the reply to \<open>:OUTPUT:STATE?\<close> as
  \<open>int(answer)\<close> reads it, \<open>None\<close> when \<open>int\<close> would fail; the other replies are what
  \<open>float(answer)\<close> reads.
\<close>

record instrument =
  idn_answer :: string
  output_answer :: "int option"
  volt_level :: pyfloat
  current_limit_level :: pyfloat
  volt_reading :: pyfloat
  current_reading :: pyfloat
  traffic :: "event list"

fun obey :: "message \<Rightarrow> instrument \<Rightarrow> instrument" where
  "obey (OUTPUT s) d =
     (if s = ''ON'' then d\<lparr>output_answer := Some 1\<rparr>
      else if s = ''OFF'' then d\<lparr>output_answer := Some 0\<rparr>
      else d)"
| "obey (SOURCE_VOLT_LEV v) d = d\<lparr>volt_level := v\<rparr>"
| "obey (SOURCE_VOLT_ILIM a) d = d\<lparr>current_limit_level := a\<rparr>"
| "obey (SYSTEM_BEEPER f t) d = d"

definition resource_write :: "message \<Rightarrow> instrument \<Rightarrow> instrument" where
  "resource_write msg d = (obey msg d)\<lparr>traffic := traffic d @ [Write msg]\<rparr>"

definition resource_asked :: "question \<Rightarrow> instrument \<Rightarrow> instrument" where
  "resource_asked q d = d\<lparr>traffic := traffic d @ [Query q]\<rparr>"

definition resource_read :: "instrument \<Rightarrow> instrument" where
  "resource_read d = d\<lparr>traffic := traffic d @ [Read]\<rparr>"

section \<open>Class Keithley2470\<close>

record Keithley2470 =
  resource_str :: string
  resource :: instrument
  is_writing :: bool
  is_reading :: bool
  idn :: string

subsection \<open>write, read and query\<close>

text \<open>
  \<open>write\<close> (here \<open>write_cmd\<close>) polls \<open>_is_writing\<close> with \<open>time.sleep(.1)\<close> until it is clear. In a single thread
  nobody else can clear it, so entering with the flag set never returns. Otherwise the
  flag is set, the message is sent, and the flag is cleared.
\<close>

definition write_cmd :: "message \<Rightarrow> 'z Keithley2470_scheme \<Rightarrow> (unit, 'z Keithley2470_scheme) run" where
  "write_cmd msg self =
     (if is_writing self then None
      else
        let self = self\<lparr>is_writing := True\<rparr>;
            self = self\<lparr>resource := resource_write msg (resource self)\<rparr>;
            self = self\<lparr>is_writing := False\<rparr>
        in Some (Return () self))"

text \<open>
  \<open>read\<close> (here \<open>read_cmd\<close>) does the same with \<open>_is_reading\<close>. The caller says what the
  instrument has to say.
\<close>

definition read_cmd :: "(instrument \<Rightarrow> 'a) \<Rightarrow> 'z Keithley2470_scheme \<Rightarrow> ('a, 'z Keithley2470_scheme) run" where
  "read_cmd reply self =
     (if is_reading self then None
      else
        let self = self\<lparr>is_reading := True\<rparr>;
            answer = reply (resource self);
            self = self\<lparr>resource := resource_read (resource self)\<rparr>;
            self = self\<lparr>is_reading := False\<rparr>
        in Some (Return answer self))"

text \<open>
  \<open>query\<close> polls both flags, sets both, asks, and clears both. The caller says which field
  of the instrument holds the reply to its question.
\<close>

definition query :: "question \<Rightarrow> (instrument \<Rightarrow> 'a) \<Rightarrow> 'z Keithley2470_scheme \<Rightarrow> ('a, 'z Keithley2470_scheme) run" where
  "query q reply self =
     (if is_writing self \<or> is_reading self then None
      else
        let self = self\<lparr>is_writing := True\<rparr>;
            self = self\<lparr>is_reading := True\<rparr>;
            answer = reply (resource self);
            self = self\<lparr>resource := resource_asked q (resource self)\<rparr>;
            self = self\<lparr>is_writing := False\<rparr>;
            self = self\<lparr>is_reading := False\<rparr>
        in Some (Return answer self))"

subsection \<open>Output state\<close>

text \<open>\<open>str.upper\<close> and \<open>str.lower\<close>, on ASCII letters; every other character is kept.\<close>

definition upper_char :: "char \<Rightarrow> char" where
  "upper_char c =
     (case map_of (zip ''abcdefghijklmnopqrstuvwxyz'' ''ABCDEFGHIJKLMNOPQRSTUVWXYZ'') c of
        Some u \<Rightarrow> u
      | None \<Rightarrow> c)"

definition lower_char :: "char \<Rightarrow> char" where
  "lower_char c =
     (case map_of (zip ''ABCDEFGHIJKLMNOPQRSTUVWXYZ'' ''abcdefghijklmnopqrstuvwxyz'') c of
        Some l \<Rightarrow> l
      | None \<Rightarrow> c)"

definition upper :: "string \<Rightarrow> string" where
  "upper s = map upper_char s"

definition lower :: "string \<Rightarrow> string" where
  "lower s = map lower_char s"

definition set_output :: "string \<Rightarrow> 'z Keithley2470_scheme \<Rightarrow> (unit, 'z Keithley2470_scheme) run" where
  "set_output state self =
     (if upper state \<notin> set [''ON'', ''OFF''] then Some (Raise ValueError self)
      else write_cmd (OUTPUT (upper state)) self)"

definition output_prop :: "'z Keithley2470_scheme \<Rightarrow> (string, 'z Keithley2470_scheme) run" where
  "output_prop self =
     and_then (query OUTPUT_STATE output_answer self) (\<lambda>answer self.
       case answer of
         None \<Rightarrow> Some (Raise RuntimeError self)
       | Some answer \<Rightarrow>
           if answer = 0 then Some (Return ''off'' self)
           else if answer = 1 then Some (Return ''on'' self)
           else Some (Raise RuntimeError self))"

subsection \<open>Source voltage and current limit\<close>

definition get_source_voltage :: "'z Keithley2470_scheme \<Rightarrow> (pyfloat, 'z Keithley2470_scheme) run" where
  "get_source_voltage self = query SOUR_VOLT volt_level self"

text \<open>
  The number that \<open>f'{volts}'\<close> prints, for an \<open>int\<close> or a \<open>float\<close>. A float is printed so
  that it reads back as itself; the digits of an \<open>int\<close> read back as the nearest float.
\<close>

fun number :: "pyval \<Rightarrow> pyfloat option" where
  "number (PyInt i) = Some (rounded (of_int i))"
| "number (PyFloat x) = Some x"
| "number (PyStr s) = None"
| "number PyNone = None"

text \<open>The setters talk to \<open>self._resource\<close> directly, past the flags of \<open>write\<close>.\<close>

definition set_source_voltage :: "pyval \<Rightarrow> 'z Keithley2470_scheme \<Rightarrow> (unit, 'z Keithley2470_scheme) run" where
  "set_source_voltage volts self =
     (case number volts of
        Some v \<Rightarrow> Some (Return () (self\<lparr>resource := resource_write (SOURCE_VOLT_LEV v) (resource self)\<rparr>))
      | None \<Rightarrow> Some (Raise TypeError self))"

definition set_source_current_limit :: "pyval \<Rightarrow> 'z Keithley2470_scheme \<Rightarrow> (unit, 'z Keithley2470_scheme) run" where
  "set_source_current_limit amperes self =
     (case number amperes of
        Some a \<Rightarrow> Some (Return () (self\<lparr>resource := resource_write (SOURCE_VOLT_ILIM a) (resource self)\<rparr>))
      | None \<Rightarrow> Some (Raise TypeError self))"

definition get_source_current_limit :: "'z Keithley2470_scheme \<Rightarrow> (pyfloat, 'z Keithley2470_scheme) run" where
  "get_source_current_limit self = query SOUR_VOLT_ILIM current_limit_level self"

definition measure_voltage :: "'z Keithley2470_scheme \<Rightarrow> (pyfloat, 'z Keithley2470_scheme) run" where
  "measure_voltage self = query MEASURE_VOLT volt_reading self"

definition measure_current :: "'z Keithley2470_scheme \<Rightarrow> (pyfloat, 'z Keithley2470_scheme) run" where
  "measure_current self = query MEASURE_CURRENT current_reading self"

subsection \<open>beep\<close>

text \<open>
  \<open>float(x)\<close> of the builtins, inside \<open>try\<close>: a float is itself, an \<open>int\<close> converts unless
  it is too large, \<open>None\<close> does not convert, and a string converts when it spells a number.
  What a string spells is left to the parameter \<open>spelled\<close>. \<open>None\<close> here is any exception,
  which the bare \<open>except\<close> of \<open>beep\<close> turns into \<open>TypeError\<close>.
\<close>

fun py_float :: "(string \<Rightarrow> pyfloat option) \<Rightarrow> pyval \<Rightarrow> pyfloat option" where
  "py_float spelled (PyInt i) = (case float_of_int i of Inl e \<Rightarrow> None | Inr f \<Rightarrow> Some f)"
| "py_float spelled (PyFloat x) = Some x"
| "py_float spelled (PyStr s) = spelled s"
| "py_float spelled PyNone = None"

definition beep :: "(string \<Rightarrow> pyfloat option) \<Rightarrow> pyval \<Rightarrow> pyval \<Rightarrow> 'z Keithley2470_scheme \<Rightarrow> (unit, 'z Keithley2470_scheme) run" where
  "beep spelled frequency_arg time_arg self =
     (case (py_float spelled frequency_arg, py_float spelled time_arg) of
        (Some frequency, Some time) \<Rightarrow>
          if \<not> (float_le (Float 200) frequency \<and> float_le frequency (Float 5000)) then Some (Raise ValueError self)
          else if float_less (Float 1) time then Some (Raise ValueError self)
          else Some (Return () (self\<lparr>resource := resource_write (SYSTEM_BEEPER frequency time) (resource self)\<rparr>))
      | _ \<Rightarrow> Some (Raise TypeError self))"

section \<open>Class Keithley2470SafeForLGADs\<close>

text \<open>\<open>__init__\<close> stores \<open>slew_rate\<close> and \<open>volt_step\<close> as they are given.\<close>

record Keithley2470SafeForLGADs = Keithley2470 +
  polarity :: int
  slew_rate :: pyval
  volt_step :: pyval

subsection \<open>set_source_voltage\<close>

text \<open>\<open>time.sleep(self.volt_step/self.slew_rate)\<close>.\<close>

definition time_sleep :: "'z Keithley2470SafeForLGADs_scheme \<Rightarrow> (unit, 'z Keithley2470SafeForLGADs_scheme) run" where
  "time_sleep self =
     and_then (evaluate (true_divide (volt_step self) (slew_rate self)) self) (\<lambda>seconds self.
       evaluate (sleep seconds) self)"

text \<open>
  One pass through the body of \<open>while True\<close>, up to the \<open>break\<close> or the \<open>time.sleep\<close>.
  The result says whether the loop was left. Every \<open>self.get_source_voltage()\<close> of the
  source is a query of its own.
\<close>

definition ramp_step :: "pyfloat \<Rightarrow> 'z Keithley2470SafeForLGADs_scheme \<Rightarrow> (bool, 'z Keithley2470SafeForLGADs_scheme) run" where
  "ramp_step voltage self =
     and_then (get_source_voltage self) (\<lambda>v1 self.
       and_then (evaluate (root_of_square (float_sub voltage v1)) self) (\<lambda>gap self.
         and_then (evaluate (greater_than gap (volt_step self)) self) (\<lambda>far self.
           if far then
             and_then (get_source_voltage self) (\<lambda>v2 self.
               and_then (evaluate (greater_than (float_sub voltage v2) (volt_step self)) self) (\<lambda>below self.
                 if below then
                   and_then (get_source_voltage self) (\<lambda>v3 self.
                     and_then (evaluate (float_plus v3 (volt_step self)) self) (\<lambda>level self.
                       and_then (set_source_voltage (PyFloat level) self) (\<lambda>_ self.
                         Some (Return False self))))
                 else
                   and_then (get_source_voltage self) (\<lambda>v3 self.
                     and_then (evaluate (float_minus v3 (volt_step self)) self) (\<lambda>level self.
                       and_then (set_source_voltage (PyFloat level) self) (\<lambda>_ self.
                         Some (Return False self))))))
           else
             and_then (set_source_voltage (PyFloat voltage) self) (\<lambda>_ self.
               Some (Return True self)))))"

partial_function (option) ramp :: "pyfloat \<Rightarrow> 'z Keithley2470SafeForLGADs_scheme \<Rightarrow> (unit, 'z Keithley2470SafeForLGADs_scheme) outcome option" where
  "ramp voltage self =
     (case ramp_step voltage self of
        None \<Rightarrow> None
      | Some (Raise e self) \<Rightarrow> Some (Raise e self)
      | Some (Return left self) \<Rightarrow>
          if left then Some (Return () self)
          else
            (case time_sleep self of
               None \<Rightarrow> None
             | Some (Raise e self) \<Rightarrow> Some (Raise e self)
             | Some (Return _ self) \<Rightarrow> ramp voltage self))"

declare ramp.simps [code]

definition SafeForLGADs_set_source_voltage :: "pyval \<Rightarrow> 'z Keithley2470SafeForLGADs_scheme \<Rightarrow> (unit, 'z Keithley2470SafeForLGADs_scheme) run" where
  "SafeForLGADs_set_source_voltage voltage self =
     and_then (evaluate (square_root_of_square voltage) self) (\<lambda>magnitude self.
       and_then (evaluate (times_polarity (polarity self) magnitude) self) (\<lambda>voltage self.
         and_then (output_prop self) (\<lambda>out self.
           if out = ''off'' then set_source_voltage (PyFloat voltage) self
           else ramp voltage self)))"

subsection \<open>set_output\<close>

definition SafeForLGADs_set_output :: "string \<Rightarrow> 'z Keithley2470SafeForLGADs_scheme \<Rightarrow> (unit, 'z Keithley2470SafeForLGADs_scheme) run" where
  "SafeForLGADs_set_output state self =
     (if lower state = ''off'' then
        and_then (output_prop self) (\<lambda>out self.
          if out = ''off'' then Some (Return () self)
          else
            and_then (SafeForLGADs_set_source_voltage (PyInt 0) self) (\<lambda>_ self.
              set_output state self))
      else
        and_then (output_prop self) (\<lambda>out self.
          if out = ''on'' then Some (Return () self)
          else
            and_then (get_source_voltage self) (\<lambda>setted_voltage self.
              and_then (set_source_voltage (PyInt 0) self) (\<lambda>_ self.
                and_then (set_output state self) (\<lambda>_ self.
                  SafeForLGADs_set_source_voltage (PyFloat setted_voltage) self)))))"

section \<open>Construction\<close>

text \<open>
  \<open>atexit.register(_atexit)\<close> appends to a registry of the process. The only callback
  this module registers is the closure \<open>_atexit\<close> of \<open>__init__\<close>, which runs
  \<open>self.source_voltage = 0\<close> and \<open>self.set_output('off')\<close> on the instance it closes over.
\<close>

datatype callback = Atexit_shutdown

text \<open>
  A constructor either hands back the instance or raises; in both cases the registry and
  the instrument are what the constructor left them.
\<close>

datatype 'o construction = Built 'o "callback list" | Failed error instrument "callback list"

fun constructed :: "('a, 'o) outcome \<Rightarrow> ('o \<Rightarrow> instrument) \<Rightarrow> callback list \<Rightarrow> 'o construction" where
  "constructed (Return a self) res registry = Built self registry"
| "constructed (Raise e self) res registry = Failed e (res self) registry"

text \<open>\<open>needle in haystack\<close> on strings.\<close>

fun contains :: "string \<Rightarrow> string \<Rightarrow> bool" where
  "contains needle [] = (needle = [])"
| "contains needle (c # cs) = (take (length needle) (c # cs) = needle \<or> contains needle cs)"

text \<open>
  \<open>Keithley2470.__init__\<close>. The calls \<open>self.set_source_voltage\<close> and \<open>self.set_output\<close> are
  dispatched on the class of the instance, so they are parameters here; \<open>subclass_fields\<close> holds
  the fields a subclass has already set.
\<close>

definition Keithley2470_init ::
  "(pyval \<Rightarrow> 'z Keithley2470_scheme \<Rightarrow> (unit, 'z Keithley2470_scheme) run) \<Rightarrow>
   (string \<Rightarrow> 'z Keithley2470_scheme \<Rightarrow> (unit, 'z Keithley2470_scheme) run) \<Rightarrow>
   string \<Rightarrow> instrument \<Rightarrow> 'z \<Rightarrow> callback list \<Rightarrow> 'z Keithley2470_scheme construction option" where
  "Keithley2470_init self_set_source_voltage self_set_output resource_string opened subclass_fields registry =
     (let self = \<lparr>resource_str = resource_string, resource = resource_asked IDN opened,
                  is_writing = False, is_reading = False, idn = idn_answer opened, \<dots> = subclass_fields\<rparr>
      in
        if \<not> contains ''KEITHLEY'' (idn self) \<or> \<not> contains ''MODEL 2470'' (idn self)
        then Some (Failed RuntimeError (resource self) registry)
        else
          let registry = registry @ [Atexit_shutdown] in
          map_option (\<lambda>r. constructed r resource registry)
            (and_then (measure_voltage self) (\<lambda>_ self.
               and_then (self_set_source_voltage (PyInt 0) self) (\<lambda>_ self.
                 self_set_output ''off'' self))))"

definition Keithley2470_new :: "string \<Rightarrow> instrument \<Rightarrow> callback list \<Rightarrow> Keithley2470 construction option" where
  "Keithley2470_new resource_string opened registry =
     Keithley2470_init set_source_voltage set_output resource_string opened () registry"

definition SafeForLGADs_new ::
  "string \<Rightarrow> pyval \<Rightarrow> pyval \<Rightarrow> pyval \<Rightarrow> instrument \<Rightarrow> callback list \<Rightarrow> Keithley2470SafeForLGADs construction option" where
  "SafeForLGADs_new resource_string polarity_arg slew volt opened registry =
     (if polarity_arg \<notin> set [PyStr ''positive'', PyStr ''negative'']
      then Some (Failed TypeError opened registry)
      else
        Keithley2470_init SafeForLGADs_set_source_voltage SafeForLGADs_set_output resource_string opened
          (Keithley2470SafeForLGADs.fields
             (if polarity_arg = PyStr ''positive'' then 1 else -1) slew volt)
          registry)"

text \<open>What the registered callback does when the interpreter exits.\<close>

definition atexit_callback ::
  "(pyval \<Rightarrow> 's \<Rightarrow> (unit, 's) run) \<Rightarrow> (string \<Rightarrow> 's \<Rightarrow> (unit, 's) run) \<Rightarrow> 's \<Rightarrow> (unit, 's) run" where
  "atexit_callback self_set_source_voltage self_set_output self =
     and_then (self_set_source_voltage (PyInt 0) self) (\<lambda>_ self. self_set_output ''off'' self)"

section \<open>Several callers\<close>

text \<open>
  The flags are there for callers in several threads, as the graphical front end of the
  module has them. A thread is about to run a line of the source, or is inside the call
  into the pyvisa resource that the line makes, or has returned. Between two lines of one
  thread any other thread may run, and a call into the resource lasts: the other threads
  run while it is in progress. The lines are those of \<open>write\<close> (29 to 33), \<open>read\<close> (36 to
  41), \<open>query\<close> (44 to 51) and \<open>Keithley2470.set_source_voltage\<close> with a number (82 and
  83); a poll that finds its flag set sleeps and polls again.
\<close>

datatype position = At nat | Inside nat | Returned

inductive line_step ::
  "'z Keithley2470_scheme \<Rightarrow> position \<Rightarrow> 'z Keithley2470_scheme \<Rightarrow> position \<Rightarrow> bool" where
  write_wait: "is_writing self \<Longrightarrow> line_step self (At 29) self (At 29)"
| write_pass: "\<not> is_writing self \<Longrightarrow> line_step self (At 29) self (At 31)"
| write_set: "line_step self (At 31) (self\<lparr>is_writing := True\<rparr>) (At 32)"
| write_call: "line_step self (At 32) self (Inside 32)"
| write_back: "line_step self (Inside 32) self (At 33)"
| write_clear: "line_step self (At 33) (self\<lparr>is_writing := False\<rparr>) Returned"
| read_wait: "is_reading self \<Longrightarrow> line_step self (At 36) self (At 36)"
| read_pass: "\<not> is_reading self \<Longrightarrow> line_step self (At 36) self (At 38)"
| read_set: "line_step self (At 38) (self\<lparr>is_reading := True\<rparr>) (At 39)"
| read_call: "line_step self (At 39) self (Inside 39)"
| read_back: "line_step self (Inside 39) self (At 40)"
| read_clear: "line_step self (At 40) (self\<lparr>is_reading := False\<rparr>) (At 41)"
| read_return: "line_step self (At 41) self Returned"
| query_wait: "is_writing self \<or> is_reading self \<Longrightarrow> line_step self (At 44) self (At 44)"
| query_pass: "\<not> (is_writing self \<or> is_reading self) \<Longrightarrow> line_step self (At 44) self (At 46)"
| query_set_writing: "line_step self (At 46) (self\<lparr>is_writing := True\<rparr>) (At 47)"
| query_set_reading: "line_step self (At 47) (self\<lparr>is_reading := True\<rparr>) (At 48)"
| query_call: "line_step self (At 48) self (Inside 48)"
| query_back: "line_step self (Inside 48) self (At 49)"
| query_clear_writing: "line_step self (At 49) (self\<lparr>is_writing := False\<rparr>) (At 50)"
| query_clear_reading: "line_step self (At 50) (self\<lparr>is_reading := False\<rparr>) (At 51)"
| query_return: "line_step self (At 51) self Returned"
| setter_number: "line_step self (At 82) self (At 83)"
| setter_call: "line_step self (At 83) self (Inside 83)"
| setter_back: "line_step self (Inside 83) self Returned"

text \<open>One thread takes one step; the instance is shared.\<close>

inductive thread_step ::
  "'z Keithley2470_scheme \<times> position list \<Rightarrow> 'z Keithley2470_scheme \<times> position list \<Rightarrow> bool" where
  "i < length threads \<Longrightarrow> line_step self (threads ! i) self' p \<Longrightarrow>
   thread_step (self, threads) (self', threads[i := p])"

text \<open>The number of threads that are inside a call into the resource.\<close>

fun inside :: "position \<Rightarrow> bool" where
  "inside (Inside line) = True"
| "inside (At line) = False"
| "inside Returned = False"

definition on_the_link :: "position list \<Rightarrow> nat" where
  "on_the_link threads = length (filter inside threads)"

section \<open>Observing a run\<close>

text \<open>
  The vocabulary of the properties: an instance between two calls has both flags clear;
  \<open>asked\<close> and \<open>sent\<close> are the instance after one question or one message; the
  voltages and the messages written are read off the traffic.
\<close>

definition idle :: "'z Keithley2470_scheme \<Rightarrow> bool" where
  "idle self \<longleftrightarrow> \<not> is_writing self \<and> \<not> is_reading self"

definition asked :: "question \<Rightarrow> 'z Keithley2470_scheme \<Rightarrow> 'z Keithley2470_scheme" where
  "asked q self = self\<lparr>resource := resource_asked q (resource self)\<rparr>"

definition sent :: "message \<Rightarrow> 'z Keithley2470_scheme \<Rightarrow> 'z Keithley2470_scheme" where
  "sent msg self = self\<lparr>resource := resource_write msg (resource self)\<rparr>"

fun written :: "event list \<Rightarrow> message list" where
  "written [] = []"
| "written (Write msg # evs) = msg # written evs"
| "written (Query q # evs) = written evs"
| "written (Read # evs) = written evs"

fun voltages :: "message list \<Rightarrow> pyfloat list" where
  "voltages [] = []"
| "voltages (SOURCE_VOLT_LEV v # msgs) = v # voltages msgs"
| "voltages (OUTPUT s # msgs) = voltages msgs"
| "voltages (SOURCE_VOLT_ILIM a # msgs) = voltages msgs"
| "voltages (SYSTEM_BEEPER f t # msgs) = voltages msgs"

text \<open>Every value of the list is finite and within \<open>s\<close> of the one before it.\<close>

fun steps_within :: "real \<Rightarrow> pyfloat list \<Rightarrow> bool" where
  "steps_within s (Float a # Float b # vs) = (\<bar>b - a\<bar> \<le> s \<and> steps_within s (Float b # vs))"
| "steps_within s [a] = True"
| "steps_within s [] = True"
| "steps_within s (a # b # vs) = False"

text \<open>The real number that a finite float, or an \<open>int\<close> or a finite float in a field, stands for.\<close>

fun finite_value :: "pyfloat \<Rightarrow> real option" where
  "finite_value (Float x) = Some x"
| "finite_value PlusInf = None"
| "finite_value MinusInf = None"
| "finite_value NaN = None"

fun number_value :: "pyval \<Rightarrow> real option" where
  "number_value (PyInt i) = Some (of_int i)"
| "number_value (PyFloat f) = finite_value f"
| "number_value (PyStr s) = None"
| "number_value PyNone = None"

text \<open>
  Voltages on which the arithmetic of the ramp is exact: whole multiples of \<open>2\<^sup>k\<close> volts of
  at most 51 bits. Their sums and differences are doubles, and the square of a difference
  neither overflows nor underflows.
\<close>

definition on_grid :: "int \<Rightarrow> real \<Rightarrow> bool" where
  "on_grid k x \<longleftrightarrow>
     - 511 \<le> k \<and> k \<le> 457 \<and> \<bar>x\<bar> \<le> 2 ^ 51 * 2 powi k
     \<and> of_int \<lfloor>x / 2 powi k\<rfloor> = x / 2 powi k"

text \<open>
  The ramp parameters of an instance: both are numbers, both are positive, and the pause
  \<open>volt_step / slew_rate\<close> is at most \<open>2\<^sup>3\<^sup>2\<close> seconds, which \<open>time.sleep\<close> accepts.
\<close>

definition ramp_parameters :: "'z Keithley2470SafeForLGADs_scheme \<Rightarrow> real \<Rightarrow> real \<Rightarrow> bool" where
  "ramp_parameters self step slew \<longleftrightarrow>
     number_value (volt_step self) = Some step \<and> number_value (slew_rate self) = Some slew
     \<and> is_double step \<and> is_double slew \<and> 0 < step \<and> 0 < slew \<and> step \<le> 2 ^ 32 * slew"

text \<open>
  The instance that one pass of the loop body leaves behind when the arithmetic is exact,
  from the level found and the step.
\<close>

definition stepped :: "real \<Rightarrow> real \<Rightarrow> real \<Rightarrow> 'z Keithley2470_scheme \<Rightarrow> 'z Keithley2470_scheme" where
  "stepped voltage level step self =
     (if \<bar>voltage - level\<bar> > step then
        sent (SOURCE_VOLT_LEV (Float (if voltage - level > step then level + step else level - step)))
          (asked SOUR_VOLT (asked SOUR_VOLT (asked SOUR_VOLT self)))
      else sent (SOURCE_VOLT_LEV (Float voltage)) (asked SOUR_VOLT self))"

subsection \<open>The public operations, as one type\<close>

text \<open>
  Every method and property of the two classes that a caller can invoke on a constructed
  \<open>Keithley2470SafeForLGADs\<close>, with the value it returns dropped. The overridden methods are
  the subclass's; \<open>Super_set_source_voltage\<close> and \<open>Super_set_output\<close> are the base-class
  methods that the subclass reaches through \<open>super()\<close>. The property setters \<open>output\<close>,
  \<open>source_voltage\<close> and \<open>current_limit\<close> are the \<open>set_\<close> methods; the properties \<open>voltage\<close>
  and \<open>current\<close> raise whether read or assigned.
\<close>

datatype operation =
    Write_op message
  | Read_op
  | Query_op question
  | Get_idn
  | Get_output
  | Set_output string
  | Get_source_voltage
  | Set_source_voltage pyval
  | Get_source_current_limit
  | Set_source_current_limit pyval
  | Measure_voltage
  | Measure_current
  | Beep pyval pyval
  | Get_slew_rate
  | Get_volt_step
  | Voltage
  | Current
  | Super_set_source_voltage pyval
  | Super_set_output string

definition discard :: "('a, 's) run \<Rightarrow> (unit, 's) run" where
  "discard m = and_then m (\<lambda>_ s. Some (Return () s))"

fun perform ::
  "(string \<Rightarrow> pyfloat option) \<Rightarrow> operation \<Rightarrow> 'z Keithley2470SafeForLGADs_scheme \<Rightarrow>
   (unit, 'z Keithley2470SafeForLGADs_scheme) run" where
  "perform spelled (Write_op msg) self = write_cmd msg self"
| "perform spelled Read_op self = discard (read_cmd (\<lambda>d. ()) self)"
| "perform spelled (Query_op q) self = discard (query q (\<lambda>d. ()) self)"
| "perform spelled Get_idn self = Some (Return () self)"
| "perform spelled Get_output self = discard (output_prop self)"
| "perform spelled (Set_output state) self = SafeForLGADs_set_output state self"
| "perform spelled Get_source_voltage self = discard (get_source_voltage self)"
| "perform spelled (Set_source_voltage volts) self = SafeForLGADs_set_source_voltage volts self"
| "perform spelled Get_source_current_limit self = discard (get_source_current_limit self)"
| "perform spelled (Set_source_current_limit amperes) self = set_source_current_limit amperes self"
| "perform spelled Measure_voltage self = discard (measure_voltage self)"
| "perform spelled Measure_current self = discard (measure_current self)"
| "perform spelled (Beep frequency time) self = beep spelled frequency time self"
| "perform spelled Get_slew_rate self = Some (Return () self)"
| "perform spelled Get_volt_step self = Some (Return () self)"
| "perform spelled Voltage self = Some (Raise AttributeError self)"
| "perform spelled Current self = Some (Raise AttributeError self)"
| "perform spelled (Super_set_source_voltage volts) self = set_source_voltage volts self"
| "perform spelled (Super_set_output state) self = set_output state self"

text \<open>The three fields that \<open>Keithley2470SafeForLGADs.__init__\<close> sets.\<close>

definition settings :: "'z Keithley2470SafeForLGADs_scheme \<Rightarrow> int \<times> pyval \<times> pyval" where
  "settings self = (polarity self, slew_rate self, volt_step self)"

subsection \<open>A bench for concrete runs\<close>

text \<open>
  The set-up of the module's own \<open>__main__\<close>: a Keithley 2470 on USB, driven with negative
  polarity and the default ramp of 2.5 V steps at 10 V/s. The instrument starts with a
  given output state and voltage level. \<open>lab_plain\<close> is the same instrument under the base
  class, and \<open>foreign_instrument\<close> one that identifies itself as something else.
\<close>

definition lab_instrument :: "int \<Rightarrow> real \<Rightarrow> instrument" where
  "lab_instrument out level =
     \<lparr>idn_answer = ''KEITHLEY INSTRUMENTS,MODEL 2470,04481179,1.6.8d'',
      output_answer = Some out, volt_level = Float level, current_limit_level = Float 0,
      volt_reading = Float level, current_reading = Float 0, traffic = []\<rparr>"

definition lab_controller :: "int \<Rightarrow> real \<Rightarrow> Keithley2470SafeForLGADs" where
  "lab_controller out level =
     \<lparr>resource_str = ''USB0::1510::9328::04481179::0::INSTR'',
      resource = lab_instrument out level, is_writing = False, is_reading = False,
      idn = idn_answer (lab_instrument out level),
      polarity = - 1, slew_rate = PyInt 10, volt_step = PyFloat (Float (5 / 2))\<rparr>"

definition lab_plain :: "int \<Rightarrow> real \<Rightarrow> Keithley2470" where
  "lab_plain out level =
     \<lparr>resource_str = ''USB0::1510::9328::04481179::0::INSTR'',
      resource = lab_instrument out level, is_writing = False, is_reading = False,
      idn = idn_answer (lab_instrument out level)\<rparr>"

definition foreign_instrument :: instrument where
  "foreign_instrument = (lab_instrument 0 0)\<lparr>idn_answer := ''ACME,MODEL 1''\<rparr>"

text \<open>
  Two more set-ups with the output On. In the first the instrument is at 0.1 V and
  \<open>volt_step\<close> is 0.3; the numbers are the doubles that Python reads these decimals as. In
  the second the instrument is at \<open>2\<^sup>5\<^sup>3\<close> V, where neighbouring doubles are 2 V apart, and
  \<open>volt_step\<close> is 1.
\<close>

definition decimal_controller :: Keithley2470SafeForLGADs where
  "decimal_controller =
     (lab_controller 1 (3602879701896397 / 2 ^ 55))\<lparr>volt_step := PyFloat (Float (5404319552844595 / 2 ^ 54))\<rparr>"

definition high_controller :: Keithley2470SafeForLGADs where
  "high_controller = (lab_controller 1 (2 ^ 53))\<lparr>volt_step := PyInt 1\<rparr>"

section \<open>Rounding\<close>

lemma two_powr_int: "(2::real) powr of_int k = 2 powi k"
  by (rule powr_real_of_int') simp_all

lemma exponent_bounds:
  assumes "x \<noteq> 0"
  shows "2 powi exponent x \<le> \<bar>x\<bar>" and "\<bar>x\<bar> < 2 powi (exponent x + 1)"
proof -
  have pos: "0 < \<bar>x\<bar>" using assms by simp
  have "2 powr of_int (exponent x) \<le> \<bar>x\<bar> \<and> \<bar>x\<bar> < 2 powr (of_int (exponent x) + 1)"
    using floor_log_eq_powr_iff [of "\<bar>x\<bar>" 2 "exponent x"] pos by (simp add: exponent_def)
  moreover have "(2::real) powr (of_int (exponent x) + 1) = 2 powi (exponent x + 1)"
    using two_powr_int [of "exponent x + 1"] by simp
  ultimately show "2 powi exponent x \<le> \<bar>x\<bar>" and "\<bar>x\<bar> < 2 powi (exponent x + 1)"
    by (simp_all add: two_powr_int)
qed

lemma exponent_unique:
  assumes "2 powi e \<le> \<bar>x\<bar>" and "\<bar>x\<bar> < 2 powi (e + 1)"
  shows "exponent x = e"
proof -
  have "(0::real) < 2 powi e" by simp
  with assms(1) have pos: "0 < \<bar>x\<bar>" by linarith
  have "(2::real) powr (of_int e + 1) = 2 powi (e + 1)"
    using two_powr_int [of "e + 1"] by simp
  then have "2 powr of_int e \<le> \<bar>x\<bar> \<and> \<bar>x\<bar> < 2 powr (of_int e + 1)"
    using assms by (simp add: two_powr_int)
  then show ?thesis
    using floor_log_eq_powr_iff [of "\<bar>x\<bar>" 2 e] pos by (simp add: exponent_def)
qed

lemma exponent_minus [simp]: "exponent (- x) = exponent x"
  by (simp add: exponent_def)

lemma exponent_le:
  assumes "x \<noteq> 0" and "\<bar>x\<bar> < 2 powi e"
  shows "exponent x < e"
proof (rule ccontr)
  assume "\<not> exponent x < e"
  then have "e \<le> exponent x" by simp
  then have "(2::real) powi e \<le> 2 powi exponent x"
    by (intro power_int_increasing) simp_all
  with exponent_bounds(1) [OF assms(1)] assms(2) show False by linarith
qed

lemma exponent_ge:
  assumes "2 powi e \<le> \<bar>x\<bar>"
  shows "e \<le> exponent x"
proof (rule ccontr)
  assume "\<not> e \<le> exponent x"
  then have "exponent x + 1 \<le> e" by simp
  then have "(2::real) powi (exponent x + 1) \<le> 2 powi e"
    by (intro power_int_increasing) simp_all
  moreover have "x \<noteq> 0"
  proof
    assume "x = 0"
    with assms have "(2::real) powi e \<le> 0" by simp
    then show False using zero_less_power_int [of "2::real" e] by linarith
  qed
  ultimately show False
    using exponent_bounds(2) [of x] assms by linarith
qed

lemma round_half_even_of_int [simp]: "round_half_even (of_int n) = n"
  by (simp add: round_half_even_def)

lemma round_half_even_error: "\<bar>of_int (round_half_even y) - y\<bar> \<le> 1 / 2"
  unfolding round_half_even_def Let_def by (auto; linarith)

lemma round_half_even_near:
  assumes "\<bar>y - of_int n\<bar> < 1 / 2"
  shows "round_half_even y = n"
proof -
  have "\<bar>of_int (round_half_even y) - of_int n :: real\<bar> < 1"
    using round_half_even_error [of y] assms by linarith
  then have "\<bar>round_half_even y - n\<bar> < 1"
    by (metis of_int_diff of_int_abs of_int_less_1_iff)
  then show ?thesis by simp
qed

lemma round_half_even_le:
  assumes "y \<le> of_int n"
  shows "round_half_even y \<le> n"
proof -
  have fl: "\<lfloor>y\<rfloor> \<le> n" using assms by (simp add: floor_le_iff)
  show ?thesis
  proof (cases "\<lfloor>y\<rfloor> = n")
    case True
    then have "y = of_int n" using assms by (metis of_int_floor_le order_antisym)
    then show ?thesis by simp
  next
    case False
    with fl have "\<lfloor>y\<rfloor> + 1 \<le> n" by simp
    then show ?thesis
      unfolding round_half_even_def Let_def by auto
  qed
qed

lemma round_half_even_ge:
  assumes "of_int n \<le> y"
  shows "n \<le> round_half_even y"
proof -
  have "n \<le> \<lfloor>y\<rfloor>" using assms by (simp add: le_floor_iff)
  then show ?thesis
    unfolding round_half_even_def Let_def by auto
qed

lemma round_half_even_minus: "round_half_even (- y) = - round_half_even y"
proof (cases "y = of_int \<lfloor>y\<rfloor>")
  case True
  then obtain n where "y = of_int n" ..
  then have "- y = of_int (- n)" by simp
  then show ?thesis
    using \<open>y = of_int n\<close> by (metis round_half_even_of_int)
next
  case False
  have lt: "of_int \<lfloor>y\<rfloor> < y" using False by (metis of_int_floor_le order_le_less)
  have up: "y < of_int \<lfloor>y\<rfloor> + 1" by linarith
  have fl: "\<lfloor>- y\<rfloor> = - \<lfloor>y\<rfloor> - 1"
  proof (rule floor_unique)
    show "of_int (- \<lfloor>y\<rfloor> - 1) \<le> - y" by simp linarith
    show "- y < of_int (- \<lfloor>y\<rfloor> - 1) + 1" using lt by simp
  qed
  show ?thesis
    unfolding round_half_even_def Let_def fl using lt
    by (auto simp add: algebra_simps; linarith?)
qed


lemma round_half_even_zero [simp]: "round_half_even 0 = 0"
  using round_half_even_of_int [of 0] by simp

lemma exponent_abs [simp]: "exponent \<bar>x\<bar> = exponent x"
  by (simp add: exponent_def)

lemma quantum_pos [simp]: "0 < quantum x"
  by (simp add: quantum_def)

lemma quantum_nonneg [simp]: "0 \<le> quantum x"
  by (simp add: quantum_def)

lemma quantum_nonzero [simp]: "quantum x \<noteq> 0"
  by (simp add: quantum_def)

lemma quantum_abs [simp]: "quantum \<bar>x\<bar> = quantum x"
  by (simp add: quantum_def)

lemma quantum_minus [simp]: "quantum (- x) = quantum x"
  by (simp add: quantum_def)

lemma round_double_minus: "round_double (- x) = - round_double x"
  by (simp add: round_double_def round_half_even_minus)

lemma round_double_zero [simp]: "round_double 0 = 0"
  by (simp add: round_double_def)

lemma round_double_abs: "\<bar>round_double x\<bar> = round_double \<bar>x\<bar>"
proof (cases "0 \<le> x")
  case True
  then have "0 \<le> x / quantum x" by simp
  then have "0 \<le> round_half_even (x / quantum x)"
    using round_half_even_ge [of 0 "x / quantum x"] by simp
  then have "0 \<le> round_double x" by (simp add: round_double_def)
  with True show ?thesis by simp
next
  case False
  then have "0 \<le> - x / quantum (- x)" by (simp add: divide_le_0_iff)
  then have "0 \<le> round_half_even (- x / quantum (- x))"
    using round_half_even_ge [of 0 "- x / quantum (- x)"] by simp
  then have "0 \<le> round_double (- x)" unfolding round_double_def by simp
  with False show ?thesis by (simp add: round_double_minus)
qed

lemma round_double_nonneg: "0 \<le> x \<Longrightarrow> 0 \<le> round_double x"
  using round_double_abs [of x] by simp

lemma quantum_normal:
  assumes "2 powi e \<le> \<bar>x\<bar>" and "\<bar>x\<bar> < 2 powi (e + 1)" and "- 1022 \<le> e"
  shows "quantum x = 2 powi (e - 52)"
  using exponent_unique [OF assms(1,2)] assms(3) by (simp add: quantum_def)

lemma round_double_subnormal:
  assumes "\<bar>x\<bar> < 2 powi (- 1022)"
  shows "round_double x = 2 powi (- 1074) * of_int (round_half_even (x / 2 powi (- 1074)))"
proof (cases "x = 0")
  case True
  then show ?thesis by simp
next
  case False
  from exponent_le [OF False assms] have "max (exponent x) (- 1022) - 52 = - 1074"
    by simp
  then have "quantum x = 2 powi (- 1074)"
    by (simp only: quantum_def)
  then show ?thesis by (simp only: round_double_def)
qed

lemma round_double_error: "\<bar>round_double x - x\<bar> \<le> quantum x / 2"
proof -
  have "round_double x - x = quantum x * (of_int (round_half_even (x / quantum x)) - x / quantum x)"
    by (simp add: round_double_def algebra_simps)
  then have "\<bar>round_double x - x\<bar> =
      quantum x * \<bar>of_int (round_half_even (x / quantum x)) - x / quantum x\<bar>"
    by (simp add: abs_mult)
  also have "\<dots> \<le> quantum x * (1 / 2)"
    by (intro mult_left_mono round_half_even_error) simp
  finally show ?thesis by simp
qed

lemma round_double_near:
  assumes "quantum w = q" and "x = of_int m * q" and "\<bar>w - x\<bar> < q / 2"
  shows "round_double w = x"
proof -
  have q: "0 < q" using assms(1) quantum_pos [of w] by simp
  have "w / q - of_int m = (w - x) / q"
    using q assms(2) by (simp add: field_simps)
  then have "\<bar>w / q - of_int m\<bar> = \<bar>w - x\<bar> / q"
    using q by (simp add: abs_divide)
  also have "\<dots> < 1 / 2"
    using q assms(3) by (simp add: field_simps)
  finally have "round_half_even (w / q) = m"
    by (rule round_half_even_near)
  then show ?thesis
    using assms(1,2) by (simp add: round_double_def)
qed

lemma quantum_below:
  assumes "x \<noteq> 0" and "\<bar>x\<bar> < 2 powi (j + 53)" and "- 1074 \<le> j"
  shows "\<exists>d. quantum x * 2 ^ d = 2 powi j"
proof -
  define t where "t = max (exponent x) (- 1022) - 52"
  have q: "quantum x = 2 powi t" by (simp add: quantum_def t_def)
  have "exponent x < j + 53" by (rule exponent_le [OF assms(1,2)])
  with assms(3) have "t \<le> j" by (simp add: t_def)
  then obtain d where d: "j = t + int d" by (metis zle_iff_zadd)
  have "quantum x * 2 ^ d = 2 powi j"
    unfolding q d by (simp add: power_int_add)
  then show ?thesis ..
qed

lemma round_double_exact:
  assumes "x = of_int m * 2 powi j" and "\<bar>m\<bar> < 2 ^ 53" and "- 1074 \<le> j"
  shows "round_double x = x"
proof (cases "m = 0")
  case True
  then show ?thesis using assms(1) by simp
next
  case False
  then have nz: "x \<noteq> 0" using assms(1) by simp
  have "\<bar>x\<bar> = of_int \<bar>m\<bar> * 2 powi j"
    using assms(1) by (simp add: abs_mult)
  also have "\<dots> < 2 ^ 53 * 2 powi j"
  proof -
    have "(of_int \<bar>m\<bar> :: real) < of_int (2 ^ 53)"
      using assms(2) by (simp only: of_int_less_iff)
    then show ?thesis by simp
  qed
  also have "\<dots> = 2 powi (j + 53)"
    by (simp add: power_int_add)
  finally obtain d where d: "quantum x * 2 ^ d = 2 powi j"
    using quantum_below [OF nz _ assms(3)] by blast
  define q where "q = quantum x"
  have "x = of_int m * (q * 2 ^ d)"
    using assms(1) d by (simp add: q_def)
  moreover have "0 < q" by (simp add: q_def)
  ultimately have "x / q = of_int (m * 2 ^ d)"
    by simp
  then have "round_half_even (x / quantum x) = m * 2 ^ d"
    unfolding q_def by (simp only: round_half_even_of_int)
  then have "round_double x = quantum x * of_int (m * 2 ^ d)"
    by (simp add: round_double_def)
  also have "\<dots> = of_int m * (quantum x * 2 ^ d)"
    by simp
  finally show ?thesis
    using assms(1) d by simp
qed

lemma round_double_le_power:
  assumes "\<bar>x\<bar> \<le> 2 powi e" and "- 1074 \<le> e"
  shows "\<bar>round_double x\<bar> \<le> 2 powi e"
proof (cases "x = 0")
  case True
  then show ?thesis by simp
next
  case False
  have "\<bar>x\<bar> < 2 powi (e + 53)"
  proof -
    have "(2::real) powi e < 2 powi (e + 53)"
      by (intro power_int_strict_increasing) simp_all
    with assms(1) show ?thesis by linarith
  qed
  from quantum_below [OF False this assms(2)] obtain d where d: "quantum x * 2 ^ d = 2 powi e"
    by blast
  have "\<bar>x\<bar> / quantum x \<le> 2 ^ d"
    using assms(1) d [symmetric] by (simp add: field_simps)
  then have "\<bar>x\<bar> / quantum \<bar>x\<bar> \<le> of_int (2 ^ d)"
    by simp
  then have "round_half_even (\<bar>x\<bar> / quantum \<bar>x\<bar>) \<le> 2 ^ d"
    by (rule round_half_even_le)
  then have "(of_int (round_half_even (\<bar>x\<bar> / quantum \<bar>x\<bar>)) :: real) \<le> of_int (2 ^ d)"
    by (simp only: of_int_le_iff)
  then have "round_double \<bar>x\<bar> \<le> quantum \<bar>x\<bar> * 2 ^ d"
    by (simp add: round_double_def)
  also have "\<dots> = 2 powi e"
    using d by simp
  finally show ?thesis
    by (simp add: round_double_abs)
qed

lemma round_double_ge_exponent:
  assumes "x \<noteq> 0" and "- 1074 \<le> exponent x"
  shows "2 powi exponent x \<le> \<bar>round_double x\<bar>"
proof -
  from quantum_below [OF assms(1) _ assms(2)] obtain d where d: "quantum x * 2 ^ d = 2 powi exponent x"
  proof -
    have "(2::real) powi (exponent x + 1) \<le> 2 powi (exponent x + 53)"
      by (intro power_int_increasing) simp_all
    with exponent_bounds(2) [OF assms(1)] have "\<bar>x\<bar> < 2 powi (exponent x + 53)" by linarith
    from quantum_below [OF assms(1) this assms(2)] that show thesis by blast
  qed
  have "2 ^ d \<le> \<bar>x\<bar> / quantum x"
    using exponent_bounds(1) [OF assms(1)] d [symmetric] by (simp add: field_simps)
  then have "of_int (2 ^ d) \<le> \<bar>x\<bar> / quantum \<bar>x\<bar>"
    by simp
  then have "2 ^ d \<le> round_half_even (\<bar>x\<bar> / quantum \<bar>x\<bar>)"
    by (rule round_half_even_ge)
  then have "(of_int (2 ^ d) :: real) \<le> of_int (round_half_even (\<bar>x\<bar> / quantum \<bar>x\<bar>))"
    by (simp only: of_int_le_iff)
  then have "quantum \<bar>x\<bar> * 2 ^ d \<le> round_double \<bar>x\<bar>"
    by (simp add: round_double_def)
  moreover have "quantum \<bar>x\<bar> * 2 ^ d = 2 powi exponent x"
    using d by simp
  ultimately show ?thesis
    by (simp add: round_double_abs)
qed

lemma round_double_ge_power:
  assumes "2 powi e \<le> \<bar>x\<bar>" and "- 1074 \<le> e"
  shows "2 powi e \<le> \<bar>round_double x\<bar>"
proof -
  have le: "e \<le> exponent x" by (rule exponent_ge [OF assms(1)])
  have nz: "x \<noteq> 0"
  proof
    assume "x = 0"
    with assms(1) have "(2::real) powi e \<le> 0" by simp
    then show False using zero_less_power_int [of "2::real" e] by linarith
  qed
  have "(2::real) powi e \<le> 2 powi exponent x"
    using le by (intro power_int_increasing) simp_all
  also have "\<dots> \<le> \<bar>round_double x\<bar>"
    using le assms(2) by (intro round_double_ge_exponent [OF nz]) simp
  finally show ?thesis .
qed


lemma sqrt_square_round:
  assumes dbl: "round_double a = a" and pos: "0 < a"
    and lo: "2 powi (- 511) \<le> a" and hi: "a < 2 powi 511"
  shows "round_double (sqrt (round_double (a * a))) = a"
proof -
  define e where "e = exponent a"
  define E :: real where "E = 2 powi e"
  define u :: real where "u = 1 / 2 ^ 53"
  define h where "h = E * u"
  define y where "y = a * a"
  define z where "z = round_double y"
  have nz: "a \<noteq> 0" using pos by simp
  have Epos: "0 < E" by (simp add: E_def)
  have upos: "0 < u" and u1: "u < 1" by (simp_all add: u_def)
  have hpos: "0 < h" using Epos upos by (simp add: h_def)
  have E_le: "E \<le> a"
    using exponent_bounds(1) [OF nz] pos by (simp add: E_def e_def)
  have a_lt: "a < 2 * E"
    using exponent_bounds(2) [OF nz] pos by (simp add: E_def e_def power_int_add)
  have e_lo: "- 511 \<le> e"
    using exponent_ge [of "- 511" a] lo pos by (simp add: e_def)
  have e_hi: "e < 511"
    using exponent_le [OF nz, of 511] hi pos by (simp add: e_def)
  have E_h: "E = 2 ^ 53 * h"
    by (simp add: h_def u_def)
  have qa: "quantum a = 2 * h"
  proof -
    have "max (exponent a) (- 1022) - 52 = e + (- 52)"
      using e_lo by (simp add: e_def)
    then have "quantum a = 2 powi (e + (- 52))"
      by (simp only: quantum_def)
    also have "\<dots> = E * 2 powi (- 52)"
      unfolding E_def by (rule power_int_add) simp
    also have "\<dots> = 2 * h"
      by (simp add: h_def u_def)
    finally show ?thesis .
  qed
  define m where "m = round_half_even (a / quantum a)"
  have "quantum a * of_int m = a"
    using dbl unfolding round_double_def m_def .
  then have "a = (2 * h) * of_int m"
    unfolding qa by (rule sym)
  then have m: "a = of_int m * (2 * h)"
    by (simp only: mult.commute)
  have m_lo: "2 ^ 52 \<le> m"
  proof -
    have "of_int (2 ^ 52) * (2 * h) \<le> of_int m * (2 * h)"
      using E_le m E_h by simp
    then have "(of_int (2 ^ 52) :: real) \<le> of_int m"
      using hpos by simp
    then show ?thesis by (simp only: of_int_le_iff)
  qed
  have m_hi: "m < 2 ^ 53"
  proof -
    have "of_int m * (2 * h) < of_int (2 ^ 53) * (2 * h)"
      using a_lt m E_h by simp
    then have "(of_int m :: real) < of_int (2 ^ 53)"
      using hpos by simp
    then show ?thesis by (simp only: of_int_less_iff)
  qed
  show ?thesis
  proof (cases "m = 2 ^ 52")
    case True
    then have aE: "a = E" using m E_h by simp
    have "a * a = of_int 1 * 2 powi (2 * e)"
      unfolding aE E_def by (simp add: power_int_add [symmetric])
    moreover have "- 1074 \<le> 2 * e" using e_lo by simp
    ultimately have "round_double (a * a) = a * a"
      by (intro round_double_exact [of _ 1 "2 * e"]) simp_all
    then show ?thesis
      using pos dbl by simp
  next
    case False
    with m_lo have "2 ^ 52 + 1 \<le> m" by simp
    then have "(of_int (2 ^ 52 + 1) :: real) \<le> of_int m" by (simp only: of_int_le_iff)
    then have "of_int (2 ^ 52 + 1) * (2 * h) \<le> of_int m * (2 * h)"
      using hpos by simp
    then have a_lo: "E + 2 * h \<le> a"
      using m E_h by (simp add: algebra_simps)
    from m_hi have "m \<le> 2 ^ 53 - 1" by simp
    then have "(of_int m :: real) \<le> of_int (2 ^ 53 - 1)" by (simp only: of_int_le_iff)
    then have "of_int m * (2 * h) \<le> of_int (2 ^ 53 - 1) * (2 * h)"
      using hpos by simp
    then have a_hi: "a \<le> 2 * E - 2 * h"
      using m E_h by (simp add: algebra_simps)
    have y_lo: "E * E \<le> y"
      unfolding y_def using E_le Epos by (intro mult_mono) simp_all
    have y_hi: "y < 4 * (E * E)"
    proof -
      have "a * a < (2 * E) * (2 * E)"
        using a_lt pos by (intro mult_strict_mono) simp_all
      then show ?thesis by (simp add: y_def)
    qed
    have EE: "E * E = 2 powi (2 * e)"
      unfolding E_def by (simp add: power_int_add [symmetric])
    have ypos: "0 < y" using pos by (simp add: y_def)
    have err: "\<bar>z - y\<bar> \<le> quantum y / 2"
      unfolding z_def by (rule round_double_error)
    have bounds: "(a - h) * (a - h) < z \<and> z < (a + h) * (a + h)"
    proof (cases "y < 2 * (E * E)")
      case True
      have "quantum y = 2 powi (2 * e - 52)"
      proof (rule quantum_normal)
        show "2 powi (2 * e) \<le> \<bar>y\<bar>" using y_lo ypos EE by simp
        have "(2::real) powi (2 * e + 1) = 2 powi (2 * e) * 2"
          by (rule power_int_add_1) simp
        then show "\<bar>y\<bar> < 2 powi (2 * e + 1)" using True ypos EE by simp
        show "- 1022 \<le> 2 * e" using e_lo by simp
      qed
      also have "\<dots> = 2 powi (2 * e + (- 52))" by simp
      also have "\<dots> = 2 powi (2 * e) * 2 powi (- 52)"
        by (rule power_int_add) simp
      also have "\<dots> = 2 * (E * E * u)"
        by (simp add: EE [symmetric] u_def)
      finally have eta: "\<bar>z - y\<bar> \<le> E * E * u"
        using err by simp
      have d1: "2 * a * h - h * h - E * E * u = E * u * (2 * (a - E) + E * (1 - u))"
        by (simp add: h_def algebra_simps)
      have p1: "0 < E * u * (2 * (a - E) + E * (1 - u))"
        using Epos upos u1 E_le by (intro mult_pos_pos add_nonneg_pos) simp_all
      have d2: "2 * a * h + h * h - E * E * u = E * u * (2 * (a - E) + E * (1 + u))"
        by (simp add: h_def algebra_simps)
      have p2: "0 < E * u * (2 * (a - E) + E * (1 + u))"
        using Epos upos E_le by (intro mult_pos_pos add_nonneg_pos) simp_all
      have s1: "(a - h) * (a - h) = y - (2 * a * h - h * h)"
        by (simp add: y_def algebra_simps)
      have s2: "(a + h) * (a + h) = y + (2 * a * h + h * h)"
        by (simp add: y_def algebra_simps)
      have k1: "E * E * u < 2 * a * h - h * h" using d1 p1 by linarith
      have k2: "E * E * u < 2 * a * h + h * h" using d2 p2 by linarith
      have "y - E * E * u \<le> z" "z \<le> y + E * E * u"
        using eta by (simp_all add: abs_le_iff)
      then show ?thesis unfolding s1 s2 using k1 k2 by linarith
    next
      case False
      have "quantum y = 2 powi (2 * e + 1 - 52)"
      proof (rule quantum_normal)
        have "(2::real) powi (2 * e + 1) = 2 powi (2 * e) * 2"
          by (rule power_int_add_1) simp
        then show "2 powi (2 * e + 1) \<le> \<bar>y\<bar>" using False ypos EE by simp
        have "(2::real) powi (2 * e + 1 + 1) = 2 powi (2 * e) * 2 powi 2"
          using power_int_add [of "2::real" "2 * e" 2] by (simp add: algebra_simps)
        then show "\<bar>y\<bar> < 2 powi (2 * e + 1 + 1)" using y_hi ypos EE by simp
        show "- 1022 \<le> 2 * e + 1" using e_lo by simp
      qed
      also have "\<dots> = 2 powi (2 * e + (- 51))" by simp
      also have "\<dots> = 2 powi (2 * e) * 2 powi (- 51)"
        by (rule power_int_add) simp
      also have "\<dots> = 4 * (E * E * u)"
        by (simp add: EE [symmetric] u_def)
      finally have eta: "\<bar>z - y\<bar> \<le> 2 * (E * E * u)"
        using err by simp
      have far: "E * (1 + u) < a"
      proof (rule ccontr)
        assume "\<not> E * (1 + u) < a"
        then have "a \<le> E * (1 + u)" by simp
        then have "a * a \<le> (E * (1 + u)) * (E * (1 + u))"
          using pos by (intro mult_mono) simp_all
        also have "\<dots> = E * E * ((1 + u) * (1 + u))" by (simp add: algebra_simps)
        also have "\<dots> < E * E * 2"
          using Epos by (intro mult_strict_left_mono) (simp_all add: u_def)
        finally show False using False by (simp add: y_def)
      qed
      have d1: "2 * a * h - h * h - 2 * (E * E * u) = E * u * (2 * (a - E * (1 + u)) + E * u)"
        by (simp add: h_def algebra_simps)
      have p1: "0 < E * u * (2 * (a - E * (1 + u)) + E * u)"
        using Epos upos far by (intro mult_pos_pos add_nonneg_pos) simp_all
      have d2: "2 * a * h + h * h - 2 * (E * E * u) = E * u * (2 * (a - E) + E * u)"
        by (simp add: h_def algebra_simps)
      have p2: "0 < E * u * (2 * (a - E) + E * u)"
        using Epos upos E_le by (intro mult_pos_pos add_nonneg_pos) simp_all
      have s1: "(a - h) * (a - h) = y - (2 * a * h - h * h)"
        by (simp add: y_def algebra_simps)
      have s2: "(a + h) * (a + h) = y + (2 * a * h + h * h)"
        by (simp add: y_def algebra_simps)
      have k1: "2 * (E * E * u) < 2 * a * h - h * h" using d1 p1 by linarith
      have k2: "2 * (E * E * u) < 2 * a * h + h * h" using d2 p2 by linarith
      have "y - 2 * (E * E * u) \<le> z" "z \<le> y + 2 * (E * E * u)"
        using eta by (simp_all add: abs_le_iff)
      then show ?thesis unfolding s1 s2 using k1 k2 by linarith
    qed
    have ah: "0 < a - h" using a_lo hpos Epos by linarith
    have low: "a - h < sqrt z"
    proof -
      have "(a - h)\<^sup>2 < z" using bounds by (simp add: power2_eq_square)
      then show ?thesis by (rule real_less_rsqrt)
    qed
    have up: "sqrt z < a + h"
    proof -
      have "z < (a + h)\<^sup>2" using bounds by (simp add: power2_eq_square)
      then show ?thesis using pos hpos by (intro real_less_lsqrt) simp_all
    qed
    have "quantum (sqrt z) = 2 powi (e - 52)"
    proof (rule quantum_normal)
      show "2 powi e \<le> \<bar>sqrt z\<bar>" using low a_lo hpos by (simp add: E_def [symmetric])
      have "(2::real) powi (e + 1) = 2 powi e * 2" by (rule power_int_add_1) simp
      then show "\<bar>sqrt z\<bar> < 2 powi (e + 1)" using up a_hi hpos low ah by (simp add: E_def [symmetric])
      show "- 1022 \<le> e" using e_lo by simp
    qed
    also have "\<dots> = 2 powi (e + (- 52))" by simp
    also have "\<dots> = E * 2 powi (- 52)"
      unfolding E_def by (rule power_int_add) simp
    also have "\<dots> = 2 * h" by (simp add: h_def u_def)
    finally have "round_double (sqrt z) = a"
      using m
    proof (rule round_double_near)
      show "\<bar>sqrt z - a\<bar> < 2 * h / 2" using low up by (simp add: abs_less_iff)
    qed
    then show ?thesis by (simp add: z_def y_def)
  qed
qed

section \<open>Exact arithmetic\<close>

lemma not_too_large:
  assumes "\<bar>x\<bar> \<le> 2 powi e" and "- 1074 \<le> e" and "e < 1024"
  shows "\<not> too_large x"
proof -
  have "\<bar>round_double x\<bar> \<le> 2 powi e"
    by (rule round_double_le_power [OF assms(1,2)])
  also have "\<dots> < 2 powi 1024"
    using assms(3) by (intro power_int_strict_increasing) simp_all
  finally have "\<bar>round_double x\<bar> < 2 ^ 1024"
    by simp
  then show ?thesis
    by (simp add: too_large_def)
qed

lemma too_large_beyond:
  assumes "2 ^ 1024 \<le> \<bar>x\<bar>"
  shows "too_large x"
proof -
  have "(2::real) powi 1024 \<le> \<bar>x\<bar>" using assms by simp
  then have "2 powi 1024 \<le> \<bar>round_double x\<bar>"
    by (rule round_double_ge_power) simp
  then show ?thesis by (simp add: too_large_def)
qed

lemma is_double_multiple:
  assumes "x = of_int m * 2 powi k" and "\<bar>m\<bar> < 2 ^ 53" and "- 1074 \<le> k" and "k \<le> 970"
  shows "is_double x"
proof -
  have exact: "round_double x = x"
    by (rule round_double_exact [OF assms(1,2,3)])
  have "(of_int \<bar>m\<bar> :: real) \<le> of_int (2 ^ 53)"
    using assms(2) by (simp only: of_int_le_iff)
  then have "of_int \<bar>m\<bar> * 2 powi k \<le> 2 ^ 53 * (2::real) powi k"
    by (intro mult_right_mono) simp_all
  also have "\<dots> = 2 powi (k + 53)"
    by (simp add: power_int_add)
  also have "\<dots> < 2 powi 1024"
    using assms(4) by (intro power_int_strict_increasing) simp_all
  finally have "\<bar>x\<bar> < 2 ^ 1024"
    using assms(1) by (simp add: abs_mult)
  with exact show ?thesis
    by (simp add: is_double_def)
qed

lemma is_double_zero [simp]: "is_double 0"
  by (simp add: is_double_def)

lemma is_double_minus [simp]: "is_double (- x) = is_double x"
  by (simp add: is_double_def round_double_minus)

lemma is_double_abs [simp]: "is_double \<bar>x\<bar> = is_double x"
  by (cases "0 \<le> x") simp_all

lemma is_double_of_int:
  assumes "\<bar>i\<bar> < 2 ^ 53"
  shows "is_double (of_int i)"
  by (rule is_double_multiple [of _ i 0]) (use assms in simp_all)

lemma rounded_double: "is_double x \<Longrightarrow> rounded x = Float x"
  by (simp add: rounded_def too_large_def is_double_def)

lemma float_of_int_double: "is_double (of_int i) \<Longrightarrow> float_of_int i = Inr (Float (of_int i))"
  by (simp add: float_of_int_def too_large_def is_double_def)

lemma as_float_number:
  assumes "number_value p = Some s" and "is_double s"
  shows "as_float p = Inr (Float s)"
proof (cases p)
  case (PyInt i)
  with assms show ?thesis by (simp add: float_of_int_double)
next
  case (PyFloat f)
  with assms show ?thesis by (cases f) simp_all
qed (use assms in simp_all)

lemma greater_than_number:
  assumes "number_value p = Some s"
  shows "greater_than (Float a) p = Inr (s < a)"
proof (cases p)
  case (PyFloat f)
  with assms show ?thesis by (cases f) simp_all
qed (use assms in simp_all)

lemma float_plus_number:
  assumes "number_value p = Some s" and "is_double s"
  shows "float_plus (Float a) p = Inr (rounded (a + s))"
  by (simp add: float_plus_def as_float_number [OF assms])

lemma float_minus_number:
  assumes "number_value p = Some s" and "is_double s"
  shows "float_minus (Float a) p = Inr (rounded (a - s))"
  by (simp add: float_minus_def float_sub_def as_float_number [OF assms])

lemma true_divide_number:
  assumes "number_value p = Some s" and "number_value p' = Some r"
    and "is_double s" and "is_double r" and "r \<noteq> 0" and "\<not> too_large (s / r)"
  shows "true_divide p p' = Inr (Float (round_double (s / r)))"
proof (cases p)
  case i: (PyInt i)
  show ?thesis
  proof (cases p')
    case (PyInt j)
    with i assms show ?thesis by simp
  next
    case (PyFloat f)
    with i assms show ?thesis
      by (cases f) (simp_all add: float_of_int_double rounded_def)
  qed (use assms in simp_all)
next
  case x: (PyFloat x)
  with assms(1) obtain sx where sx: "x = Float sx" by (cases x) simp_all
  show ?thesis
  proof (cases p')
    case (PyInt j)
    with x sx assms show ?thesis
      by (simp add: float_of_int_double rounded_def)
  next
    case (PyFloat f)
    with x sx assms show ?thesis
      by (cases f) (simp_all add: rounded_def)
  qed (use assms in simp_all)
qed (use assms in simp_all)

lemma sleep_short:
  assumes "0 \<le> t" and "t \<le> 2 ^ 32"
  shows "sleep (Float t) = Inr ()"
proof -
  have nonneg: "0 \<le> round_double (t * 10 ^ 9)"
    using assms(1) by (intro round_double_nonneg) simp
  have "t * 10 ^ 9 \<le> 2 ^ 32 * 10 ^ 9"
    using assms(2) by simp
  also have "\<dots> \<le> (2::real) ^ 62"
    by simp
  finally have "\<bar>t * 10 ^ 9\<bar> \<le> 2 powi 62"
    using assms(1) by simp
  then have "\<bar>round_double (t * 10 ^ 9)\<bar> \<le> 2 powi 62"
    by (rule round_double_le_power) simp
  also have "\<dots> < (2::real) ^ 63"
    by simp
  finally have "round_double (t * 10 ^ 9) < 2 ^ 63"
    by simp
  with nonneg show ?thesis
    by (simp add: Let_def)
qed

lemma root_of_square_abs:
  assumes "is_double x" and "x = 0 \<or> 2 powi (- 511) \<le> \<bar>x\<bar> \<and> \<bar>x\<bar> < 2 powi 511"
  shows "\<not> too_large (x * x)" and "round_double (sqrt (round_double (x * x))) = \<bar>x\<bar>"
proof -
  show "\<not> too_large (x * x)"
  proof (cases "x = 0")
    case True
    then show ?thesis by (simp add: too_large_def)
  next
    case False
    with assms(2) have "\<bar>x\<bar> < 2 powi 511" by simp
    then have "\<bar>x\<bar> * \<bar>x\<bar> \<le> 2 powi 511 * 2 powi 511"
      by (intro mult_mono) simp_all
    also have "\<dots> = (2::real) powi 1022"
      by (simp add: power_int_add [symmetric])
    finally have "\<bar>x * x\<bar> \<le> 2 powi 1022"
      by (simp add: abs_mult)
    then show ?thesis
      by (rule not_too_large) simp_all
  qed
  show "round_double (sqrt (round_double (x * x))) = \<bar>x\<bar>"
  proof (cases "x = 0")
    case True
    then show ?thesis by simp
  next
    case False
    have "round_double \<bar>x\<bar> = \<bar>x\<bar>"
      using assms(1) by (simp add: is_double_def round_double_abs [symmetric])
    moreover have "0 < \<bar>x\<bar>" using False by simp
    moreover have "2 powi (- 511) \<le> \<bar>x\<bar>" "\<bar>x\<bar> < 2 powi 511"
      using assms(2) False by simp_all
    ultimately have "round_double (sqrt (round_double (\<bar>x\<bar> * \<bar>x\<bar>))) = \<bar>x\<bar>"
      by (rule sqrt_square_round)
    then show ?thesis by simp
  qed
qed

lemma root_of_square_Float:
  assumes "is_double x" and "x = 0 \<or> 2 powi (- 511) \<le> \<bar>x\<bar> \<and> \<bar>x\<bar> < 2 powi 511"
  shows "root_of_square (Float x) = Inr (Float \<bar>x\<bar>)"
  using root_of_square_abs [OF assms] by simp

lemma square_root_of_square_number:
  assumes "number_value requested = Some x" and "is_double x"
    and "x = 0 \<or> 2 powi (- 511) \<le> \<bar>x\<bar> \<and> \<bar>x\<bar> < 2 powi 511"
  shows "square_root_of_square requested = Inr (Float \<bar>x\<bar>)"
proof (cases requested)
  case (PyInt i)
  with assms(1) have x: "x = of_int i" by simp
  show ?thesis
    using root_of_square_abs [OF assms(2,3)] PyInt by (simp add: x)
next
  case (PyFloat f)
  with assms(1) have "f = Float x" by (cases f) simp_all
  with PyFloat show ?thesis
    using root_of_square_Float [OF assms(2,3)] by simp
qed (use assms in simp_all)

section \<open>Basic facts\<close>

lemma and_then_Return [simp]: "and_then (Some (Return a s)) f = f a s"
  by (simp add: and_then_def)

lemma and_then_Raise [simp]: "and_then (Some (Raise e s)) f = Some (Raise e s)"
  by (simp add: and_then_def)

lemma and_then_None [simp]: "and_then None f = None"
  by (simp add: and_then_def)

lemma evaluate_Inr [simp]: "evaluate (Inr a) s = Some (Return a s)"
  by (simp add: evaluate_def)

lemma evaluate_Inl [simp]: "evaluate (Inl e) s = Some (Raise e s)"
  by (simp add: evaluate_def)

lemma query_idle:
  "idle self \<Longrightarrow> query q reply self = Some (Return (reply (resource self)) (asked q self))"
  by (cases self) (simp add: query_def idle_def asked_def)

lemma query_busy: "\<not> idle self \<Longrightarrow> query q reply self = None"
  by (auto simp add: query_def idle_def)

lemma write_cmd_idle:
  "idle self \<Longrightarrow> write_cmd msg self = Some (Return () (sent msg self))"
  by (cases self) (simp add: write_cmd_def idle_def sent_def)

lemma idle_asked [simp]: "idle (asked q self) = idle self"
  by (simp add: idle_def asked_def)

lemma idle_sent [simp]: "idle (sent msg self) = idle self"
  by (simp add: idle_def sent_def)

lemma resource_asked_fields [simp]:
  "idn_answer (resource_asked q d) = idn_answer d"
  "output_answer (resource_asked q d) = output_answer d"
  "volt_level (resource_asked q d) = volt_level d"
  "current_limit_level (resource_asked q d) = current_limit_level d"
  "volt_reading (resource_asked q d) = volt_reading d"
  "current_reading (resource_asked q d) = current_reading d"
  "traffic (resource_asked q d) = traffic d @ [Query q]"
  by (simp_all add: resource_asked_def)

lemma resource_write_traffic [simp]:
  "traffic (resource_write msg d) = traffic d @ [Write msg]"
  by (simp add: resource_write_def)

lemma resource_write_volt [simp]:
  "volt_level (resource_write (SOURCE_VOLT_LEV v) d) = v"
  "output_answer (resource_write (SOURCE_VOLT_LEV v) d) = output_answer d"
  by (simp_all add: resource_write_def)

lemma resource_write_output [simp]:
  "volt_level (resource_write (OUTPUT s) d) = volt_level d"
  "output_answer (resource_write (OUTPUT ''OFF'') d) = Some 0"
  "output_answer (resource_write (OUTPUT ''ON'') d) = Some 1"
  by (simp_all add: resource_write_def)

lemma resource_of_asked [simp]: "resource (asked q self) = resource_asked q (resource self)"
  by (simp add: asked_def)

lemma resource_of_sent [simp]: "resource (sent msg self) = resource_write msg (resource self)"
  by (simp add: sent_def)

lemma settings_asked [simp]:
  "polarity (asked q self) = polarity self"
  "slew_rate (asked q self) = slew_rate self"
  "volt_step (asked q self) = volt_step self"
  by (simp_all add: asked_def)

lemma settings_sent [simp]:
  "polarity (sent msg self) = polarity self"
  "slew_rate (sent msg self) = slew_rate self"
  "volt_step (sent msg self) = volt_step self"
  by (simp_all add: sent_def)

lemma get_source_voltage_idle:
  "idle self \<Longrightarrow> get_source_voltage self = Some (Return (volt_level (resource self)) (asked SOUR_VOLT self))"
  by (simp add: get_source_voltage_def query_idle)

lemma set_source_voltage_PyFloat [simp]:
  "set_source_voltage (PyFloat v) self = Some (Return () (sent (SOURCE_VOLT_LEV v) self))"
  by (simp add: set_source_voltage_def sent_def)

lemma output_prop_idle:
  "idle self \<Longrightarrow> output_prop self =
     (case output_answer (resource self) of
        None \<Rightarrow> Some (Raise RuntimeError (asked OUTPUT_STATE self))
      | Some answer \<Rightarrow>
          if answer = 0 then Some (Return ''off'' (asked OUTPUT_STATE self))
          else if answer = 1 then Some (Return ''on'' (asked OUTPUT_STATE self))
          else Some (Raise RuntimeError (asked OUTPUT_STATE self)))"
  by (simp add: output_prop_def query_idle)

lemma output_prop_busy: "\<not> idle self \<Longrightarrow> output_prop self = None"
  by (simp add: output_prop_def query_busy)

lemma written_append [simp]: "written (xs @ ys) = written xs @ written ys"
  by (induction xs rule: written.induct) simp_all

lemma voltages_append [simp]: "voltages (xs @ ys) = voltages xs @ voltages ys"
  by (induction xs rule: voltages.induct) simp_all

lemma stepped_idle [simp]: "idle (stepped voltage level step self) = idle self"
  by (simp add: stepped_def)

lemma stepped_settings [simp]:
  "polarity (stepped voltage level step self) = polarity self"
  "slew_rate (stepped voltage level step self) = slew_rate self"
  "volt_step (stepped voltage level step self) = volt_step self"
  by (simp_all add: stepped_def)

lemma stepped_output_answer [simp]:
  "output_answer (resource (stepped voltage level step self)) = output_answer (resource self)"
  by (simp add: stepped_def)

section \<open>Voltages on a grid\<close>

lemma on_grid_multiple:
  assumes "on_grid k x"
  obtains m where "x = of_int m * 2 powi k" and "\<bar>m\<bar> \<le> 2 ^ 51"
proof -
  define q :: real where "q = 2 powi k"
  define m where "m = \<lfloor>x / q\<rfloor>"
  have q: "0 < q" by (simp add: q_def)
  have "of_int m = x / q"
    using assms by (simp add: on_grid_def m_def q_def)
  then have x: "x = of_int m * q"
    using q by simp
  have "\<bar>x\<bar> \<le> 2 ^ 51 * q"
    using assms by (simp add: on_grid_def q_def)
  then have "of_int \<bar>m\<bar> * q \<le> of_int (2 ^ 51) * q"
    using q by (simp add: x abs_mult)
  then have "(of_int \<bar>m\<bar> :: real) \<le> of_int (2 ^ 51)"
    using q by (simp only: mult_le_cancel_right)
  then have "\<bar>m\<bar> \<le> 2 ^ 51"
    by (simp only: of_int_le_iff)
  with x that show thesis
    by (simp add: q_def)
qed

lemma on_gridI:
  assumes "- 511 \<le> k" and "k \<le> 457" and "\<bar>m\<bar> \<le> 2 ^ 51"
  shows "on_grid k (of_int m * 2 powi k)"
proof -
  have "(of_int \<bar>m\<bar> :: real) \<le> of_int (2 ^ 51)"
    using assms(3) by (simp only: of_int_le_iff)
  then have "of_int \<bar>m\<bar> * 2 powi k \<le> 2 ^ 51 * (2::real) powi k"
    by (intro mult_right_mono) simp_all
  then show ?thesis
    using assms(1,2) by (simp add: on_grid_def abs_mult)
qed

lemma on_grid_exponent: "on_grid k x \<Longrightarrow> - 511 \<le> k \<and> k \<le> 457"
  by (simp add: on_grid_def)

lemma on_grid_double:
  assumes "on_grid k x"
  shows "is_double x"
proof -
  from assms obtain m where "x = of_int m * 2 powi k" "\<bar>m\<bar> \<le> 2 ^ 51"
    by (rule on_grid_multiple)
  then show ?thesis
    using on_grid_exponent [OF assms] by (intro is_double_multiple [of x m k]) simp_all
qed

lemma on_grid_diff:
  assumes "on_grid k v" and "on_grid k x"
  shows "is_double (v - x)"
    and "v - x = 0 \<or> 2 powi (- 511) \<le> \<bar>v - x\<bar> \<and> \<bar>v - x\<bar> < 2 powi 511"
proof -
  from assms(1) obtain mv where v: "v = of_int mv * 2 powi k" "\<bar>mv\<bar> \<le> 2 ^ 51"
    by (rule on_grid_multiple)
  from assms(2) obtain mx where x: "x = of_int mx * 2 powi k" "\<bar>mx\<bar> \<le> 2 ^ 51"
    by (rule on_grid_multiple)
  note k = on_grid_exponent [OF assms(1)]
  have d: "v - x = of_int (mv - mx) * 2 powi k"
    by (simp add: v(1) x(1) algebra_simps)
  have m: "\<bar>mv - mx\<bar> \<le> 2 ^ 52"
    using v(2) x(2) by simp
  show "is_double (v - x)"
    using d m k by (intro is_double_multiple [of _ "mv - mx" k]) simp_all
  show "v - x = 0 \<or> 2 powi (- 511) \<le> \<bar>v - x\<bar> \<and> \<bar>v - x\<bar> < 2 powi 511"
  proof (cases "mv = mx")
    case True
    then show ?thesis by (simp add: d)
  next
    case False
    then have "1 \<le> \<bar>mv - mx\<bar>" by simp
    then have "(of_int 1 :: real) \<le> of_int \<bar>mv - mx\<bar>"
      by (simp only: of_int_le_iff)
    then have "1 * 2 powi k \<le> of_int \<bar>mv - mx\<bar> * (2::real) powi k"
      by (intro mult_right_mono) simp_all
    then have "\<bar>v - x\<bar> = of_int \<bar>mv - mx\<bar> * 2 powi k" "(2::real) powi k \<le> of_int \<bar>mv - mx\<bar> * 2 powi k"
      unfolding d by (simp_all add: abs_mult)
    moreover have "(2::real) powi (- 511) \<le> 2 powi k"
      using k by (intro power_int_increasing) simp_all
    ultimately have low: "2 powi (- 511) \<le> \<bar>v - x\<bar>"
      by linarith
    have "(of_int \<bar>mv - mx\<bar> :: real) \<le> of_int (2 ^ 52)"
      using m by (simp only: of_int_le_iff)
    then have "of_int \<bar>mv - mx\<bar> * 2 powi k \<le> 2 ^ 52 * (2::real) powi k"
      by (intro mult_right_mono) simp_all
    also have "\<dots> = 2 powi (k + 52)"
      by (simp add: power_int_add)
    also have "\<dots> < 2 powi 511"
      using k by (intro power_int_strict_increasing) simp_all
    finally have "\<bar>v - x\<bar> < 2 powi 511"
      unfolding d by (simp add: abs_mult)
    with low show ?thesis by simp
  qed
qed

lemma on_grid_minus [simp]: "on_grid k (- x) = on_grid k x"
proof -
  have "on_grid k (- y)" if "on_grid k y" for y
  proof -
    from that obtain m where "y = of_int m * 2 powi k" "\<bar>m\<bar> \<le> 2 ^ 51"
      by (rule on_grid_multiple)
    then have "- y = of_int (- m) * 2 powi k" "\<bar>- m\<bar> \<le> 2 ^ 51"
      by simp_all
    then show ?thesis
      using on_gridI [of k "- m"] on_grid_exponent [OF that] by simp
  qed
  from this [of x] this [of "- x"] show ?thesis by auto
qed

lemma on_grid_zero: "- 511 \<le> k \<Longrightarrow> k \<le> 457 \<Longrightarrow> on_grid k 0"
  using on_gridI [of k 0] by simp

lemma on_grid_abs [simp]: "on_grid k \<bar>x\<bar> = on_grid k x"
  by (cases "0 \<le> x") simp_all

lemma on_grid_add:
  assumes "on_grid k a" and "on_grid k s" and "\<bar>a + s\<bar> \<le> 2 ^ 51 * 2 powi k"
  shows "on_grid k (a + s)"
proof -
  from assms(1) obtain ma where a: "a = of_int ma * 2 powi k" "\<bar>ma\<bar> \<le> 2 ^ 51"
    by (rule on_grid_multiple)
  from assms(2) obtain ms where s: "s = of_int ms * 2 powi k" "\<bar>ms\<bar> \<le> 2 ^ 51"
    by (rule on_grid_multiple)
  have sum: "a + s = of_int (ma + ms) * 2 powi k"
    by (simp add: a(1) s(1) algebra_simps)
  have "of_int \<bar>ma + ms\<bar> * 2 powi k \<le> of_int (2 ^ 51) * (2::real) powi k"
    using assms(3) unfolding sum by (simp add: abs_mult)
  then have "(of_int \<bar>ma + ms\<bar> :: real) \<le> of_int (2 ^ 51)"
    by (simp only: mult_le_cancel_right) simp
  then have "\<bar>ma + ms\<bar> \<le> 2 ^ 51"
    by (simp only: of_int_le_iff)
  then show ?thesis
    unfolding sum using on_grid_exponent [OF assms(1)] by (intro on_gridI) simp_all
qed

lemma on_grid_bound: "on_grid k x \<Longrightarrow> \<bar>x\<bar> \<le> 2 ^ 51 * 2 powi k"
  by (simp add: on_grid_def)

lemma on_grid_step_up:
  assumes "on_grid k level" and "on_grid k voltage" and "on_grid k step"
    and "0 < step" and "step < voltage - level"
  shows "on_grid k (level + step)"
proof (rule on_grid_add [OF assms(1,3)])
  show "\<bar>level + step\<bar> \<le> 2 ^ 51 * 2 powi k"
    using on_grid_bound [OF assms(1)] on_grid_bound [OF assms(2)] assms(4,5) by linarith
qed

lemma on_grid_step_down:
  assumes "on_grid k level" and "on_grid k voltage" and "on_grid k step"
    and "0 < step" and "step < level - voltage"
  shows "on_grid k (level - step)"
proof -
  have "on_grid k (level + - step)"
  proof (rule on_grid_add [OF assms(1)])
    show "on_grid k (- step)" using assms(3) by simp
    show "\<bar>level + - step\<bar> \<le> 2 ^ 51 * 2 powi k"
      using on_grid_bound [OF assms(1)] on_grid_bound [OF assms(2)] assms(4,5) by linarith
  qed
  then show ?thesis by simp
qed

section \<open>The ramp where the arithmetic is exact\<close>

lemma float_sub_exact:
  assumes "is_double (v - x)"
  shows "float_sub (Float v) (Float x) = Float (v - x)"
  using rounded_double [OF assms] by (simp add: float_sub_def)

lemma ramp_step_exact:
  assumes "idle self" and "volt_level (resource self) = Float level"
    and "number_value (volt_step self) = Some step" and "0 < step"
    and "on_grid k level" and "on_grid k voltage" and "on_grid k step"
  shows "ramp_step (Float voltage) self =
           Some (Return (\<bar>voltage - level\<bar> \<le> step) (stepped voltage level step self))"
proof -
  note diff = on_grid_diff [OF assms(6,5)]
  have sub: "float_sub (Float voltage) (Float level) = Float (voltage - level)"
    by (rule float_sub_exact [OF diff(1)])
  have gap: "root_of_square (Float (voltage - level)) = Inr (Float \<bar>voltage - level\<bar>)"
    by (rule root_of_square_Float [OF diff])
  have step: "is_double step"
    by (rule on_grid_double [OF assms(7)])
  show ?thesis
  proof (cases "step < \<bar>voltage - level\<bar>")
    case False
    then show ?thesis
      using assms(1,2)
      by (simp add: ramp_step_def get_source_voltage_idle sub gap
          greater_than_number [OF assms(3)] stepped_def del: root_of_square.simps)
  next
    case far: True
    show ?thesis
    proof (cases "step < voltage - level")
      case True
      have "is_double (level + step)"
        by (rule on_grid_double [OF on_grid_step_up [OF assms(5,6,7,4) True]])
      then have "rounded (level + step) = Float (level + step)"
        by (rule rounded_double)
      then show ?thesis
        using assms(1,2) far True
        by (simp add: ramp_step_def get_source_voltage_idle sub gap
            greater_than_number [OF assms(3)] float_plus_number [OF assms(3) step] stepped_def
            del: root_of_square.simps)
    next
      case False
      with far have down: "step < level - voltage" by linarith
      have "is_double (level - step)"
        by (rule on_grid_double [OF on_grid_step_down [OF assms(5,6,7,4) down]])
      then have "rounded (level - step) = Float (level - step)"
        by (rule rounded_double)
      then show ?thesis
        using assms(1,2) far False
        by (simp add: ramp_step_def get_source_voltage_idle sub gap
            greater_than_number [OF assms(3)] float_minus_number [OF assms(3) step] stepped_def
            del: root_of_square.simps)
    qed
  qed
qed

lemma time_sleep_returns:
  assumes "ramp_parameters self step slew"
  shows "time_sleep self = Some (Return () self)"
proof -
  from assms have p: "number_value (volt_step self) = Some step"
    "number_value (slew_rate self) = Some slew" "is_double step" "is_double slew"
    "0 < step" "0 < slew" "step \<le> 2 ^ 32 * slew"
    by (simp_all add: ramp_parameters_def)
  have q: "0 \<le> step / slew" "step / slew \<le> 2 ^ 32"
    using p(5,6,7) by (simp_all add: field_simps)
  then have bound: "\<bar>step / slew\<bar> \<le> 2 powi 32"
    by simp
  have small: "\<not> too_large (step / slew)" "\<bar>round_double (step / slew)\<bar> \<le> 2 powi 32"
    by (rule not_too_large [OF bound], simp, simp) (rule round_double_le_power [OF bound], simp)
  have "true_divide (volt_step self) (slew_rate self) = Inr (Float (round_double (step / slew)))"
    using p(1,2,3,4) _ small(1) by (rule true_divide_number) (use p(6) in simp)
  moreover have "sleep (Float (round_double (step / slew))) = Inr ()"
    using round_double_nonneg [OF q(1)] small(2) by (intro sleep_short) simp_all
  ultimately show ?thesis
    by (simp add: time_sleep_def)
qed

lemma ramp_parameters_asked [simp]:
  "ramp_parameters (asked q self) step slew = ramp_parameters self step slew"
  by (simp add: ramp_parameters_def)

lemma ramp_parameters_sent [simp]:
  "ramp_parameters (sent msg self) step slew = ramp_parameters self step slew"
  by (simp add: ramp_parameters_def)

lemma ramp_parameters_stepped [simp]:
  "ramp_parameters (stepped voltage level step' self) step slew = ramp_parameters self step slew"
  by (simp add: stepped_def)

lemma ramp_parameters_step:
  assumes "ramp_parameters self step slew"
  shows "number_value (volt_step self) = Some step" and "0 < step"
  using assms by (simp_all add: ramp_parameters_def)

lemma stepped_arrived:
  assumes "\<bar>voltage - level\<bar> \<le> step"
  shows "volt_level (resource (stepped voltage level step self)) = Float voltage"
    and "traffic (resource (stepped voltage level step self)) =
           traffic (resource self) @ [Query SOUR_VOLT, Write (SOURCE_VOLT_LEV (Float voltage))]"
  using assms by (simp_all add: stepped_def)

lemma stepped_closer:
  assumes "\<not> \<bar>voltage - level\<bar> \<le> step" and "0 < step"
  shows "\<exists>level'. volt_level (resource (stepped voltage level step self)) = Float level'
           \<and> traffic (resource (stepped voltage level step self)) =
               traffic (resource self) @
                 [Query SOUR_VOLT, Query SOUR_VOLT, Query SOUR_VOLT, Write (SOURCE_VOLT_LEV (Float level'))]
           \<and> \<bar>level' - level\<bar> = step
           \<and> \<bar>voltage - level'\<bar> = \<bar>voltage - level\<bar> - step
           \<and> (on_grid k level \<longrightarrow> on_grid k voltage \<longrightarrow> on_grid k step \<longrightarrow> on_grid k level')"
proof (cases "step < voltage - level")
  case True
  then show ?thesis
    using assms
    by (intro exI [of _ "level + step"]) (auto simp add: stepped_def intro: on_grid_step_up)
next
  case False
  with assms have "step < level - voltage" by linarith
  then show ?thesis
    using assms False
    by (intro exI [of _ "level - step"]) (auto simp add: stepped_def intro: on_grid_step_down)
qed

lemma ramp_arrives:
  assumes "idle self" and "volt_level (resource self) = Float level"
    and "ramp_parameters self step slew"
    and "on_grid k level" and "on_grid k voltage" and "on_grid k step"
    and "\<bar>voltage - level\<bar> \<le> step"
  shows "ramp (Float voltage) self = Some (Return () (stepped voltage level step self))"
  using ramp_step_exact [OF assms(1,2) ramp_parameters_step [OF assms(3)] assms(4,5,6)] assms(7)
  by (subst ramp.simps) simp

lemma ramp_goes_on:
  assumes "idle self" and "volt_level (resource self) = Float level"
    and "ramp_parameters self step slew"
    and "on_grid k level" and "on_grid k voltage" and "on_grid k step"
    and "\<not> \<bar>voltage - level\<bar> \<le> step"
  shows "ramp (Float voltage) self = ramp (Float voltage) (stepped voltage level step self)"
proof -
  have "time_sleep (stepped voltage level step self) = Some (Return () (stepped voltage level step self))"
    using assms(3) by (intro time_sleep_returns [of _ step slew]) simp
  then show ?thesis
    using ramp_step_exact [OF assms(1,2) ramp_parameters_step [OF assms(3)] assms(4,5,6)] assms(7)
    by (subst ramp.simps) simp
qed

lemma ramp_by_distance:
  assumes "idle self" and "volt_level (resource self) = Float level"
    and "ramp_parameters self step slew"
    and "on_grid k level" and "on_grid k voltage" and "on_grid k step"
    and "\<bar>voltage - level\<bar> \<le> (real n + 1) * step"
  shows "\<exists>self' evs. ramp (Float voltage) self = Some (Return () self')
           \<and> idle self'
           \<and> polarity self' = polarity self
           \<and> slew_rate self' = slew_rate self
           \<and> volt_step self' = volt_step self
           \<and> output_answer (resource self') = output_answer (resource self)
           \<and> traffic (resource self') = traffic (resource self) @ evs
           \<and> map SOURCE_VOLT_LEV (voltages (written evs)) = written evs
           \<and> voltages (written evs) \<noteq> []
           \<and> last (voltages (written evs)) = Float voltage
           \<and> steps_within step (Float level # voltages (written evs))
           \<and> volt_level (resource self') = Float voltage"
  using assms
proof (induction n arbitrary: self level)
  case 0
  then have near: "\<bar>voltage - level\<bar> \<le> step"
    by simp
  show ?case
    using ramp_arrives [OF "0.prems"(1-6) near] "0.prems"(1) near
    by (intro exI [of _ "stepped voltage level step self"]
          exI [of _ "[Query SOUR_VOLT, Write (SOURCE_VOLT_LEV (Float voltage))]"])
       (simp add: stepped_arrived)
next
  case (Suc n)
  show ?case
  proof (cases "\<bar>voltage - level\<bar> \<le> step")
    case True
    show ?thesis
      using ramp_arrives [OF Suc.prems(1-6) True] Suc.prems(1) True
      by (intro exI [of _ "stepped voltage level step self"]
            exI [of _ "[Query SOUR_VOLT, Write (SOURCE_VOLT_LEV (Float voltage))]"])
         (simp add: stepped_arrived)
  next
    case far: False
    note pos = ramp_parameters_step(2) [OF Suc.prems(3)]
    let ?next = "stepped voltage level step self"
    from stepped_closer [OF far pos, of self k] Suc.prems(4,5,6) obtain level' where
      v: "volt_level (resource ?next) = Float level'"
      and tr: "traffic (resource ?next) =
               traffic (resource self) @
                 [Query SOUR_VOLT, Query SOUR_VOLT, Query SOUR_VOLT, Write (SOURCE_VOLT_LEV (Float level'))]"
      and dv: "\<bar>level' - level\<bar> = step"
      and gap: "\<bar>voltage - level'\<bar> = \<bar>voltage - level\<bar> - step"
      and grid: "on_grid k level'"
      by blast
    let ?evs = "[Query SOUR_VOLT, Query SOUR_VOLT, Query SOUR_VOLT, Write (SOURCE_VOLT_LEV (Float level'))]"
    have unfold: "ramp (Float voltage) self = ramp (Float voltage) ?next"
      by (rule ramp_goes_on [OF Suc.prems(1-6) far])
    have "\<bar>voltage - level'\<bar> \<le> (real n + 1) * step"
      using Suc.prems(7) gap by (simp add: algebra_simps)
    moreover have "idle ?next" "ramp_parameters ?next step slew"
      using Suc.prems(1,3) by simp_all
    ultimately obtain self' evs where
      ih: "ramp (Float voltage) ?next = Some (Return () self')"
        "idle self'"
        "polarity self' = polarity self"
        "slew_rate self' = slew_rate self"
        "volt_step self' = volt_step self"
        "output_answer (resource self') = output_answer (resource self)"
        "traffic (resource self') = traffic (resource ?next) @ evs"
        "map SOURCE_VOLT_LEV (voltages (written evs)) = written evs"
        "voltages (written evs) \<noteq> []"
        "last (voltages (written evs)) = Float voltage"
        "steps_within step (Float level' # voltages (written evs))"
        "volt_level (resource self') = Float voltage"
      using Suc.IH [of ?next level', OF _ v _ grid Suc.prems(5,6)]
      unfolding stepped_settings stepped_output_answer
      by blast
    have "ramp (Float voltage) self = Some (Return () self')"
      by (rule trans [OF unfold ih(1)])
    then show ?thesis
      using ih(2-) tr dv
      by (intro exI [of _ self'] exI [of _ "?evs @ evs"]) simp
  qed
qed

lemma ramp_total:
  assumes "idle self" and "volt_level (resource self) = Float level"
    and "ramp_parameters self step slew"
    and "on_grid k level" and "on_grid k voltage" and "on_grid k step"
  shows "\<exists>self' evs. ramp (Float voltage) self = Some (Return () self')
           \<and> idle self'
           \<and> polarity self' = polarity self
           \<and> slew_rate self' = slew_rate self
           \<and> volt_step self' = volt_step self
           \<and> output_answer (resource self') = output_answer (resource self)
           \<and> traffic (resource self') = traffic (resource self) @ evs
           \<and> map SOURCE_VOLT_LEV (voltages (written evs)) = written evs
           \<and> voltages (written evs) \<noteq> []
           \<and> last (voltages (written evs)) = Float voltage
           \<and> steps_within step (Float level # voltages (written evs))
           \<and> volt_level (resource self') = Float voltage"
proof -
  note pos = ramp_parameters_step(2) [OF assms(3)]
  from ex_less_of_nat_mult [OF pos] obtain n
    where "\<bar>voltage - level\<bar> < of_nat n * step" by blast
  with pos have "\<bar>voltage - level\<bar> \<le> (real n + 1) * step"
    by (simp add: algebra_simps)
  from ramp_by_distance [OF assms this] show ?thesis .
qed

section \<open>What every run of the ramp does\<close>

lemma settings_asked_eq [simp]: "settings (asked q self) = settings self"
  by (simp add: settings_def)

lemma settings_sent_eq [simp]: "settings (sent msg self) = settings self"
  by (simp add: settings_def)

lemma settings_stepped_eq [simp]: "settings (stepped voltage level step self) = settings self"
  by (simp add: settings_def)

lemma ramp_step_busy: "\<not> idle self \<Longrightarrow> ramp_step voltage self = None"
  by (simp add: ramp_step_def get_source_voltage_def query_busy)

lemma ramp_step_shape:
  assumes "ramp_step voltage self = Some r"
  shows "idle self"
    and "(\<exists>e. r = Raise e (asked SOUR_VOLT self))
       \<or> (\<exists>e. r = Raise e (asked SOUR_VOLT (asked SOUR_VOLT self)))
       \<or> (\<exists>e. r = Raise e (asked SOUR_VOLT (asked SOUR_VOLT (asked SOUR_VOLT self))))
       \<or> (\<exists>level. r = Return False
             (sent (SOURCE_VOLT_LEV level) (asked SOUR_VOLT (asked SOUR_VOLT (asked SOUR_VOLT self)))))
       \<or> r = Return True (sent (SOURCE_VOLT_LEV voltage) (asked SOUR_VOLT self))"
proof -
  show idle: "idle self"
    using assms ramp_step_busy [of self voltage] by (cases "idle self") simp_all
  show "(\<exists>e. r = Raise e (asked SOUR_VOLT self))
       \<or> (\<exists>e. r = Raise e (asked SOUR_VOLT (asked SOUR_VOLT self)))
       \<or> (\<exists>e. r = Raise e (asked SOUR_VOLT (asked SOUR_VOLT (asked SOUR_VOLT self))))
       \<or> (\<exists>level. r = Return False
             (sent (SOURCE_VOLT_LEV level) (asked SOUR_VOLT (asked SOUR_VOLT (asked SOUR_VOLT self)))))
       \<or> r = Return True (sent (SOURCE_VOLT_LEV voltage) (asked SOUR_VOLT self))"
    using assms idle
    by (auto simp add: ramp_step_def get_source_voltage_idle evaluate_def
        simp del: root_of_square.simps split: sum.splits if_splits)
qed

lemma time_sleep_shape:
  assumes "time_sleep self = Some r"
  shows "r = Return () self \<or> (\<exists>e. r = Raise e self)"
  using assms by (auto simp add: time_sleep_def evaluate_def split: sum.splits)

lemma ramp_outcome_step:
  assumes IH: "\<And>v s y. again v s = Some y \<Longrightarrow>
      \<exists>evs. traffic (resource (final_state y)) = traffic (resource s) @ evs
        \<and> map SOURCE_VOLT_LEV (voltages (written evs)) = written evs
        \<and> idle (final_state y)
        \<and> settings (final_state y) = settings s
        \<and> output_answer (resource (final_state y)) = output_answer (resource s)
        \<and> (\<forall>self'. y = Return () self' \<longrightarrow>
              voltages (written evs) \<noteq> [] \<and> last (voltages (written evs)) = v
              \<and> volt_level (resource self') = v)"
    and body: "(case ramp_step voltage self of
                  None \<Rightarrow> None
                | Some (Raise e s1) \<Rightarrow> Some (Raise e s1)
                | Some (Return left s1) \<Rightarrow>
                    if left then Some (Return () s1)
                    else
                      (case time_sleep s1 of
                         None \<Rightarrow> None
                       | Some (Raise e s2) \<Rightarrow> Some (Raise e s2)
                       | Some (Return u s2) \<Rightarrow> again voltage s2)) = Some r"
  shows "\<exists>evs. traffic (resource (final_state r)) = traffic (resource self) @ evs
        \<and> map SOURCE_VOLT_LEV (voltages (written evs)) = written evs
        \<and> idle (final_state r)
        \<and> settings (final_state r) = settings self
        \<and> output_answer (resource (final_state r)) = output_answer (resource self)
        \<and> (\<forall>self'. r = Return () self' \<longrightarrow>
              voltages (written evs) \<noteq> [] \<and> last (voltages (written evs)) = voltage
              \<and> volt_level (resource self') = voltage)"
proof (cases "ramp_step voltage self")
  case None
  with body show ?thesis by simp
next
  case (Some r1)
  note idle = ramp_step_shape(1) [OF Some]
  from ramp_step_shape(2) [OF Some] consider
      (raise1) e where "r1 = Raise e (asked SOUR_VOLT self)"
    | (raise2) e where "r1 = Raise e (asked SOUR_VOLT (asked SOUR_VOLT self))"
    | (raise3) e where "r1 = Raise e (asked SOUR_VOLT (asked SOUR_VOLT (asked SOUR_VOLT self)))"
    | (closer) level where "r1 = Return False
        (sent (SOURCE_VOLT_LEV level) (asked SOUR_VOLT (asked SOUR_VOLT (asked SOUR_VOLT self))))"
    | (arrived) "r1 = Return True (sent (SOURCE_VOLT_LEV voltage) (asked SOUR_VOLT self))"
    by blast
  then show ?thesis
  proof cases
    case raise1
    with Some body have "r = Raise e (asked SOUR_VOLT self)" by simp
    then show ?thesis
      using idle by (intro exI [of _ "[Query SOUR_VOLT]"]) simp
  next
    case raise2
    with Some body have "r = Raise e (asked SOUR_VOLT (asked SOUR_VOLT self))" by simp
    then show ?thesis
      using idle by (intro exI [of _ "[Query SOUR_VOLT, Query SOUR_VOLT]"]) simp
  next
    case raise3
    with Some body have "r = Raise e (asked SOUR_VOLT (asked SOUR_VOLT (asked SOUR_VOLT self)))" by simp
    then show ?thesis
      using idle by (intro exI [of _ "[Query SOUR_VOLT, Query SOUR_VOLT, Query SOUR_VOLT]"]) simp
  next
    case arrived
    with Some body have "r = Return () (sent (SOURCE_VOLT_LEV voltage) (asked SOUR_VOLT self))" by simp
    then show ?thesis
      using idle by (intro exI [of _ "[Query SOUR_VOLT, Write (SOURCE_VOLT_LEV voltage)]"]) simp
  next
    case closer
    let ?s1 = "sent (SOURCE_VOLT_LEV level) (asked SOUR_VOLT (asked SOUR_VOLT (asked SOUR_VOLT self)))"
    let ?evs1 = "[Query SOUR_VOLT, Query SOUR_VOLT, Query SOUR_VOLT, Write (SOURCE_VOLT_LEV level)]"
    show ?thesis
    proof (cases "time_sleep ?s1")
      case None
      with Some closer body show ?thesis by simp
    next
      case slept: (Some r2)
      from time_sleep_shape [OF slept] show ?thesis
      proof
        assume r2: "r2 = Return () ?s1"
        with Some closer slept body have "again voltage ?s1 = Some r" by simp
        from IH [OF this] obtain evs where
          "traffic (resource (final_state r)) = traffic (resource ?s1) @ evs"
          "map SOURCE_VOLT_LEV (voltages (written evs)) = written evs"
          "idle (final_state r)"
          "settings (final_state r) = settings ?s1"
          "output_answer (resource (final_state r)) = output_answer (resource ?s1)"
          "\<forall>self'. r = Return () self' \<longrightarrow>
              voltages (written evs) \<noteq> [] \<and> last (voltages (written evs)) = voltage
              \<and> volt_level (resource self') = voltage"
          by blast
        then show ?thesis
          by (intro exI [of _ "?evs1 @ evs"]) auto
      next
        assume "\<exists>e. r2 = Raise e ?s1"
        then obtain e where "r2 = Raise e ?s1" ..
        with Some closer slept body have "r = Raise e ?s1" by simp
        then show ?thesis
          using idle by (intro exI [of _ ?evs1]) simp
      qed
    qed
  qed
qed

lemma ramp_outcome:
  assumes "ramp voltage self = Some r"
  shows "\<exists>evs. traffic (resource (final_state r)) = traffic (resource self) @ evs
        \<and> map SOURCE_VOLT_LEV (voltages (written evs)) = written evs
        \<and> idle (final_state r)
        \<and> settings (final_state r) = settings self
        \<and> output_answer (resource (final_state r)) = output_answer (resource self)
        \<and> (\<forall>self'. r = Return () self' \<longrightarrow>
              voltages (written evs) \<noteq> [] \<and> last (voltages (written evs)) = voltage
              \<and> volt_level (resource self') = voltage)"
  by (rule ramp.raw_induct [where P = "\<lambda>v s y.
        \<exists>evs. traffic (resource (final_state y)) = traffic (resource s) @ evs
        \<and> map SOURCE_VOLT_LEV (voltages (written evs)) = written evs
        \<and> idle (final_state y)
        \<and> settings (final_state y) = settings s
        \<and> output_answer (resource (final_state y)) = output_answer (resource s)
        \<and> (\<forall>self'. y = Return () self' \<longrightarrow>
              voltages (written evs) \<noteq> [] \<and> last (voltages (written evs)) = v
              \<and> volt_level (resource self') = v)", OF _ assms])
     (rule ramp_outcome_step)

lemma ramp_frame:
  assumes "ramp voltage self = Some r"
  shows "settings (final_state r) = settings self"
  using ramp_outcome [OF assms] by blast

section \<open>Conversions of ints\<close>

lemma round_half_even_ge_half:
  assumes "of_int n - 1 / 2 \<le> y" and "even n"
  shows "n \<le> round_half_even y"
proof -
  have fl: "n - 1 \<le> \<lfloor>y\<rfloor>"
    using assms(1) by (simp add: le_floor_iff) 
  show ?thesis
  proof (cases "n \<le> \<lfloor>y\<rfloor>")
    case True
    then show ?thesis unfolding round_half_even_def Let_def by auto
  next
    case False
    with fl have eq: "\<lfloor>y\<rfloor> = n - 1" by simp
    then have "\<not> y - of_int \<lfloor>y\<rfloor> < 1 / 2" using assms(1) by simp
    moreover have "odd \<lfloor>y\<rfloor>" using eq assms(2) by simp
    ultimately show ?thesis
      unfolding round_half_even_def Let_def using eq by auto
  qed
qed

lemma round_half_even_less_half:
  assumes "y < of_int n - 1 / 2"
  shows "round_half_even y < n"
proof -
  have "y < of_int n" using assms by linarith
  then have "\<lfloor>y\<rfloor> < n" by (simp add: floor_less_iff)
  then have fl: "\<lfloor>y\<rfloor> \<le> n - 1" by simp
  show ?thesis
  proof (cases "\<lfloor>y\<rfloor> = n - 1")
    case True
    then have "y - of_int \<lfloor>y\<rfloor> < 1 / 2" using assms by simp
    then show ?thesis
      unfolding round_half_even_def Let_def using True by simp
  next
    case False
    with fl have "\<lfloor>y\<rfloor> + 1 < n" by simp
    then show ?thesis
      unfolding round_half_even_def Let_def by auto
  qed
qed

lemma too_large_iff: "too_large x \<longleftrightarrow> 2 ^ 1024 - 2 ^ 970 \<le> \<bar>x\<bar>"
proof (cases "\<bar>x\<bar> < 2 powi 1023")
  case True
  then have "\<bar>x\<bar> \<le> 2 powi 1023" by simp
  then have "\<not> too_large x" by (rule not_too_large) simp_all
  moreover have "\<bar>x\<bar> < 2 ^ 1024 - 2 ^ 970" using True by simp
  ultimately show ?thesis by simp
next
  case low: False
  show ?thesis
  proof (cases "2 ^ 1024 \<le> \<bar>x\<bar>")
    case True
    then show ?thesis using too_large_beyond [OF True] by simp
  next
    case False
    have "quantum x = 2 powi (1023 - 52)"
      by (rule quantum_normal) (use low False in simp_all)
    then have q: "quantum x = 2 ^ 971" by simp
    have "round_double \<bar>x\<bar> = quantum x * of_int (round_half_even (\<bar>x\<bar> / quantum x))"
      by (simp add: round_double_def)
    then have rd: "\<bar>round_double x\<bar> = 2 ^ 971 * of_int (round_half_even (\<bar>x\<bar> / 2 ^ 971))"
      by (simp only: round_double_abs q)
    show ?thesis
    proof (cases "2 ^ 1024 - 2 ^ 970 \<le> \<bar>x\<bar>")
      case True
      then have "of_int (2 ^ 53) - 1 / 2 \<le> \<bar>x\<bar> / 2 ^ 971" by simp
      then have "2 ^ 53 \<le> round_half_even (\<bar>x\<bar> / 2 ^ 971)"
        by (rule round_half_even_ge_half) simp
      then have "(of_int (2 ^ 53) :: real) \<le> of_int (round_half_even (\<bar>x\<bar> / 2 ^ 971))"
        by (simp only: of_int_le_iff)
      then have "2 ^ 971 * (of_int (2 ^ 53) :: real) \<le> \<bar>round_double x\<bar>"
        unfolding rd by (intro mult_left_mono) simp_all
      then show ?thesis using True by (simp add: too_large_def)
    next
      case False
      then have "\<bar>x\<bar> / 2 ^ 971 < of_int (2 ^ 53) - 1 / 2" by simp
      then have "round_half_even (\<bar>x\<bar> / 2 ^ 971) < 2 ^ 53"
        by (rule round_half_even_less_half)
      then have "round_half_even (\<bar>x\<bar> / 2 ^ 971) \<le> 2 ^ 53 - 1" by simp
      then have "(of_int (round_half_even (\<bar>x\<bar> / 2 ^ 971)) :: real) \<le> of_int (2 ^ 53 - 1)"
        by (simp only: of_int_le_iff)
      then have "\<bar>round_double x\<bar> \<le> 2 ^ 971 * (of_int (2 ^ 53 - 1) :: real)"
        unfolding rd by (intro mult_left_mono) simp_all
      then show ?thesis using False by (simp add: too_large_def)
    qed
  qed
qed

lemma round_double_of_int_small:
  assumes "\<bar>i\<bar> < 2 ^ 53"
  shows "round_double (of_int i) = of_int i"
  using is_double_of_int [OF assms] by (simp add: is_double_def)

lemma round_double_of_int_large:
  assumes "2 ^ 53 \<le> i"
  shows "2 ^ 53 \<le> round_double (of_int i)"
proof -
  have "(of_int (2 ^ 53) :: real) \<le> of_int i"
    using assms by (simp only: of_int_le_iff)
  then have "(2::real) powi 53 \<le> \<bar>of_int i\<bar>" by simp
  then have "2 powi 53 \<le> \<bar>round_double (of_int i)\<bar>"
    by (rule round_double_ge_power) simp
  moreover have "0 \<le> round_double (of_int i)"
    using assms by (intro round_double_nonneg) simp
  ultimately show ?thesis by simp
qed

lemma round_double_of_int_less:
  assumes "\<bar>c\<bar> < 2 ^ 53"
  shows "round_double (of_int i) < of_int c \<longleftrightarrow> i < c"
proof (cases "\<bar>i\<bar> < 2 ^ 53")
  case True
  then show ?thesis by (simp add: round_double_of_int_small)
next
  case False
  show ?thesis
  proof (cases "0 \<le> i")
    case True
    with False have big: "2 ^ 53 \<le> i" by simp
    have "c < 2 ^ 53" using assms by simp
    then have "(of_int c :: real) < of_int (2 ^ 53)"
      by (simp only: of_int_less_iff)
    with round_double_of_int_large [OF big] have "\<not> round_double (of_int i) < of_int c"
      by simp
    moreover have "\<not> i < c" using big assms by simp
    ultimately show ?thesis by simp
  next
    case neg: False
    with False have big: "2 ^ 53 \<le> - i" by simp
    have "- (2 ^ 53) < c" using assms by simp
    then have "(of_int (- (2 ^ 53)) :: real) < of_int c"
      by (simp only: of_int_less_iff)
    moreover have "round_double (of_int i) \<le> - (2 ^ 53)"
      using round_double_of_int_large [OF big] by (simp add: round_double_minus)
    ultimately have "round_double (of_int i) < of_int c"
      by simp
    moreover have "i < c" using big assms by simp
    ultimately show ?thesis by simp
  qed
qed

lemma round_double_of_int_greater:
  assumes "\<bar>c\<bar> < 2 ^ 53"
  shows "of_int c < round_double (of_int i) \<longleftrightarrow> c < i"
proof -
  have "round_double (of_int (- i)) < of_int (- c) \<longleftrightarrow> - i < - c"
    using assms by (intro round_double_of_int_less) simp
  then show ?thesis
    by (simp add: round_double_minus)
qed

lemma float_between:
  "\<not> (float_le (Float a) f \<and> float_le f (Float b)) \<longleftrightarrow>
     f = NaN \<or> float_less f (Float a) \<or> float_less (Float b) f"
  by (cases f) auto

section \<open>The claims\<close>

lemma rounded_zero [simp]: "rounded 0 = Float 0"
  by (simp add: rounded_double)

lemma py_float_int:
  "py_float spelled (PyInt i) =
     (if 2 ^ 1024 - 2 ^ 970 \<le> \<bar>i\<bar> then None else Some (Float (round_double (of_int i))))"
proof -
  have "(2 ^ 1024 - 2 ^ 970 \<le> \<bar>of_int i :: real\<bar>) = (2 ^ 1024 - 2 ^ 970 \<le> \<bar>i\<bar>)"
  proof -
    have "(of_int (2 ^ 1024 - 2 ^ 970) \<le> (of_int \<bar>i\<bar> :: real)) = (2 ^ 1024 - 2 ^ 970 \<le> \<bar>i\<bar>)"
      by (simp only: of_int_le_iff)
    then show ?thesis by simp
  qed
  then show ?thesis
    by (simp add: float_of_int_def too_large_iff)
qed

lemma beep_converted:
  assumes "py_float spelled frequency_arg = Some frequency" and "py_float spelled time_arg = Some time"
  shows "beep spelled frequency_arg time_arg self =
        (if frequency = NaN \<or> float_less frequency (Float 200) \<or> float_less (Float 5000) frequency
            \<or> float_less (Float 1) time
         then Some (Raise ValueError self)
         else Some (Return () (sent (SYSTEM_BEEPER frequency time) self)))"
  using assms float_between [of 200 frequency 5000]
  by (simp add: beep_def sent_def del: float_le.simps float_less.simps)

lemma beep_unconverted:
  assumes "py_float spelled frequency_arg = None \<or> py_float spelled time_arg = None"
  shows "beep spelled frequency_arg time_arg self = Some (Raise TypeError self)"
  using assms by (auto simp add: beep_def split: option.splits)

text \<open>
  Claim C10, as stated, at two numeric arguments. A NaN frequency is neither below 200 nor
  above 5000, and \<open>beep\<close> raises \<open>ValueError\<close> for it. The duration \<open>-10\<^sup>4\<^sup>0\<^sup>0\<close> is a number and is
  at most 1, the frequency 2222 is in range, and \<open>beep\<close> does not succeed: \<open>float\<close> fails on
  the duration, the bare \<open>except\<close> raises \<open>TypeError\<close>, and nothing is written.
\<close>

theorem beep_domain_counterexample:
  "beep (\<lambda>s. None) (PyFloat NaN) (PyFloat (Float (1 / 2))) (lab_controller 0 0) =
     Some (Raise ValueError (lab_controller 0 0))
   \<and> \<not> float_less NaN (Float 200) \<and> \<not> float_less (Float 5000) NaN
   \<and> \<not> float_less (Float 1) (Float (1 / 2))
   \<and> beep (\<lambda>s. None) (PyInt 2222) (PyInt (- (10 ^ 400))) (lab_controller 0 0) =
     Some (Raise TypeError (lab_controller 0 0))
   \<and> (200::int) \<le> 2222 \<and> (2222::int) \<le> 5000 \<and> - (10 ^ 400) \<le> (1::int)"
proof -
  have "py_float (\<lambda>s. None) (PyInt (- (10 ^ 400))) = None"
    unfolding py_float_int by simp
  then have "beep (\<lambda>s. None) (PyInt 2222) (PyInt (- (10 ^ 400))) (lab_controller 0 0) =
     Some (Raise TypeError (lab_controller 0 0))"
    by (intro beep_unconverted) simp
  moreover have "beep (\<lambda>s. None) (PyFloat NaN) (PyFloat (Float (1 / 2))) (lab_controller 0 0) =
     Some (Raise ValueError (lab_controller 0 0))"
    by (simp add: beep_def)
  ultimately show ?thesis
    by simp
qed

text \<open>
  Claim C10, amended. Whenever \<open>float\<close> converts both arguments, \<open>beep\<close> raises \<open>ValueError\<close>
  exactly when the frequency is NaN, below 200 or above 5000, or the duration is above 1,
  and then nothing is sent; otherwise, also for a zero, negative or NaN duration, the call
  returns and exactly one message, the beeper command, has been written. When \<open>float\<close>
  fails on an argument, \<open>beep\<close> raises \<open>TypeError\<close> and nothing is sent. Every float
  converts, to itself. An \<open>int\<close> converts unless its magnitude reaches \<open>2\<^sup>1\<^sup>0\<^sup>2\<^sup>4 - 2\<^sup>9\<^sup>7\<^sup>0\<close>; it
  converts to the nearest double, which is the \<open>int\<close> itself below \<open>2\<^sup>5\<^sup>3\<close> and in any case
  compares with 200, 5000 and 1 as the \<open>int\<close> does.
\<close>

theorem beep_domain:
  "(py_float spelled frequency_arg = Some frequency \<and> py_float spelled time_arg = Some time \<longrightarrow>
      beep spelled frequency_arg time_arg self =
        (if frequency = NaN \<or> float_less frequency (Float 200) \<or> float_less (Float 5000) frequency
            \<or> float_less (Float 1) time
         then Some (Raise ValueError self)
         else Some (Return () (sent (SYSTEM_BEEPER frequency time) self)))
      \<and> traffic (resource (sent (SYSTEM_BEEPER frequency time) self)) =
          traffic (resource self) @ [Write (SYSTEM_BEEPER frequency time)])
   \<and> (py_float spelled frequency_arg = None \<or> py_float spelled time_arg = None \<longrightarrow>
        beep spelled frequency_arg time_arg self = Some (Raise TypeError self))
   \<and> py_float spelled (PyFloat x) = Some x
   \<and> py_float spelled (PyInt i) =
       (if 2 ^ 1024 - 2 ^ 970 \<le> \<bar>i\<bar> then None else Some (Float (round_double (of_int i))))
   \<and> (\<bar>i\<bar> < 2 ^ 53 \<longrightarrow> round_double (of_int i) = of_int i)
   \<and> (round_double (of_int i) < 200 \<longleftrightarrow> i < 200)
   \<and> (5000 < round_double (of_int i) \<longleftrightarrow> 5000 < i)
   \<and> (1 < round_double (of_int i) \<longleftrightarrow> 1 < i)"
proof -
  have "round_double (of_int i) < of_int 200 \<longleftrightarrow> i < 200"
    by (rule round_double_of_int_less) simp
  moreover have "of_int 5000 < round_double (of_int i) \<longleftrightarrow> 5000 < i"
    by (rule round_double_of_int_greater) simp
  moreover have "of_int 1 < round_double (of_int i) \<longleftrightarrow> 1 < i"
    by (rule round_double_of_int_greater) simp
  ultimately have order: "(round_double (of_int i) < 200 \<longleftrightarrow> i < 200)
      \<and> (5000 < round_double (of_int i) \<longleftrightarrow> 5000 < i)
      \<and> (1 < round_double (of_int i) \<longleftrightarrow> 1 < i)"
    by simp
  have small: "\<bar>i\<bar> < 2 ^ 53 \<longrightarrow> round_double (of_int i) = of_int i"
    by (simp add: round_double_of_int_small)
  have float: "py_float spelled (PyFloat x) = Some x"
    by simp
  have sent: "traffic (resource (sent (SYSTEM_BEEPER frequency time) self)) =
      traffic (resource self) @ [Write (SYSTEM_BEEPER frequency time)]"
    by simp
  show ?thesis
    using beep_converted [of spelled frequency_arg frequency time_arg time self]
      beep_unconverted [of spelled frequency_arg time_arg self]
      py_float_int [of spelled i] order small float sent
    by blast
qed

theorem beep_domain_witness:
  "py_float (\<lambda>s. None) (PyInt 1000) = Some (Float 1000)
   \<and> py_float (\<lambda>s. None) (PyFloat (Float (- 1))) = Some (Float (- 1))
   \<and> beep (\<lambda>s. None) (PyInt 1000) (PyFloat (Float (- 1))) (lab_controller 0 0) =
       Some (Return () (sent (SYSTEM_BEEPER (Float 1000) (Float (- 1))) (lab_controller 0 0)))
   \<and> beep (\<lambda>s. None) (PyInt 100) (PyFloat (Float (1 / 2))) (lab_controller 0 0) =
       Some (Raise ValueError (lab_controller 0 0))
   \<and> py_float (\<lambda>s. None) PyNone = None
   \<and> beep (\<lambda>s. None) PyNone (PyInt 1000) (lab_controller 0 0) =
       Some (Raise TypeError (lab_controller 0 0))"
proof -
  note high = beep_domain [where spelled = "\<lambda>s. None" and frequency_arg = "PyInt 1000"
      and frequency = "Float 1000" and time_arg = "PyFloat (Float (- 1))" and time = "Float (- 1)"
      and self = "lab_controller 0 0" and x = "Float (- 1)" and i = 1000]
  note low = beep_domain [where spelled = "\<lambda>s. None" and frequency_arg = "PyInt 100"
      and frequency = "Float 100" and time_arg = "PyFloat (Float (1 / 2))" and time = "Float (1 / 2)"
      and self = "lab_controller 0 0" and x = "Float (1 / 2)" and i = 100]
  note none = beep_domain [where spelled = "\<lambda>s. None" and frequency_arg = PyNone
      and frequency = "Float 0" and time_arg = "PyInt 1000" and time = "Float 0"
      and self = "lab_controller 0 0" and x = "Float 0" and i = 0]
  have c1: "py_float (\<lambda>s. None) (PyInt 1000) = Some (Float 1000)"
    using high by simp
  have c2: "py_float (\<lambda>s. None) (PyInt 100) = Some (Float 100)"
    using low by simp
  have "beep (\<lambda>s. None) (PyInt 1000) (PyFloat (Float (- 1))) (lab_controller 0 0) =
       Some (Return () (sent (SYSTEM_BEEPER (Float 1000) (Float (- 1))) (lab_controller 0 0)))"
    using high c1 by simp
  moreover have "beep (\<lambda>s. None) (PyInt 100) (PyFloat (Float (1 / 2))) (lab_controller 0 0) =
       Some (Raise ValueError (lab_controller 0 0))"
    using low c2 by simp
  moreover have "beep (\<lambda>s. None) PyNone (PyInt 1000) (lab_controller 0 0) =
       Some (Raise TypeError (lab_controller 0 0))"
    using none by simp
  ultimately show ?thesis
    using c1 by simp
qed

lemma lower_off [simp]: "lower ''off'' = ''off''"
  by (simp add: lower_def lower_char_def)

lemma lower_on [simp]: "lower ''on'' = ''on''"
  by (simp add: lower_def lower_char_def)

lemma upper_off [simp]: "upper ''off'' = ''OFF''"
  by (simp add: upper_def upper_char_def)

lemma upper_on [simp]: "upper ''on'' = ''ON''"
  by (simp add: upper_def upper_char_def)

lemma idle_lab_controller [simp]: "idle (lab_controller out level)"
  by (simp add: idle_def lab_controller_def)

text \<open>
  Claim C6. On an instrument that reports Off, \<open>set_output('off')\<close> only asks for the output
  state and returns; likewise \<open>set_output('on')\<close> on an instrument that reports On. The one
  question leaves the list of written messages as it was, and apart from the traffic log
  the instrument is unchanged.
\<close>

theorem set_output_idempotent:
  assumes "idle self"
  shows "(output_answer (resource self) = Some 0 \<longrightarrow>
            SafeForLGADs_set_output ''off'' self = Some (Return () (asked OUTPUT_STATE self)))
       \<and> (output_answer (resource self) = Some 1 \<longrightarrow>
            SafeForLGADs_set_output ''on'' self = Some (Return () (asked OUTPUT_STATE self)))
       \<and> written (traffic (resource (asked OUTPUT_STATE self))) = written (traffic (resource self))
       \<and> (resource (asked OUTPUT_STATE self))\<lparr>traffic := traffic (resource self)\<rparr> = resource self"
  using assms
  by (simp add: SafeForLGADs_set_output_def output_prop_idle resource_asked_def)

theorem set_output_idempotent_witness:
  "idle (lab_controller 0 7) \<and> output_answer (resource (lab_controller 0 7)) = Some 0
   \<and> SafeForLGADs_set_output ''off'' (lab_controller 0 7) =
       Some (Return () (asked OUTPUT_STATE (lab_controller 0 7)))
   \<and> idle (lab_controller 1 7) \<and> output_answer (resource (lab_controller 1 7)) = Some 1
   \<and> SafeForLGADs_set_output ''on'' (lab_controller 1 7) =
       Some (Return () (asked OUTPUT_STATE (lab_controller 1 7)))"
  using set_output_idempotent [of "lab_controller 0 7"] set_output_idempotent [of "lab_controller 1 7"]
  by (simp add: lab_controller_def lab_instrument_def idle_def)

text \<open>
  Claim C7, at the input where it fails. \<open>Keithley2470.set_output\<close> rejects the token
  \<open>'banana'\<close> before any traffic. \<open>Keithley2470SafeForLGADs.set_output\<close> does not: with the
  output Off it asks for the output state and the voltage, writes a voltage level of 0,
  and only then raises; with the output On it asks for the output state and returns
  without any error.
\<close>

theorem set_output_unknown_token:
  "SafeForLGADs_set_output ''banana'' (lab_controller 0 7) =
     Some (Raise ValueError
       (sent (SOURCE_VOLT_LEV (Float 0)) (asked SOUR_VOLT (asked OUTPUT_STATE (lab_controller 0 7)))))
   \<and> SafeForLGADs_set_output ''banana'' (lab_controller 1 7) =
     Some (Return () (asked OUTPUT_STATE (lab_controller 1 7)))
   \<and> set_output ''banana'' (lab_controller 0 7) = Some (Raise ValueError (lab_controller 0 7))"
proof -
  have token: "lower ''banana'' \<noteq> ''off''" "upper ''banana'' \<notin> set [''ON'', ''OFF'']"
    by (simp_all add: lower_def lower_char_def upper_def upper_char_def)
  have out: "output_answer (resource (lab_controller 0 7)) = Some 0"
    "output_answer (resource (lab_controller 1 7)) = Some 1"
    by (simp_all add: lab_controller_def lab_instrument_def)
  have zero: "set_source_voltage (PyInt 0) self = Some (Return () (sent (SOURCE_VOLT_LEV (Float 0)) self))"
    for self :: Keithley2470SafeForLGADs
    by (simp add: set_source_voltage_def sent_def)
  show ?thesis
    using token out
    by (simp add: SafeForLGADs_set_output_def output_prop_idle get_source_voltage_idle
        set_output_def zero)
qed

lemma ramp_step_rounding:
  assumes "idle self" and "volt_level (resource self) = Float level"
    and "number_value (volt_step self) = Some step" and "is_double step"
    and "rounded (voltage - level) = Float d" and "is_double d"
    and "d = 0 \<or> 2 powi (- 511) \<le> \<bar>d\<bar> \<and> \<bar>d\<bar> < 2 powi 511"
  shows "ramp_step (Float voltage) self =
     (if step < \<bar>d\<bar> then
        Some (Return False
          (sent (SOURCE_VOLT_LEV (rounded (if step < d then level + step else level - step)))
            (asked SOUR_VOLT (asked SOUR_VOLT (asked SOUR_VOLT self)))))
      else Some (Return True (sent (SOURCE_VOLT_LEV (Float voltage)) (asked SOUR_VOLT self))))"
proof -
  have sub: "float_sub (Float voltage) (Float level) = Float d"
    using assms(5) by (simp add: float_sub_def)
  have gap: "root_of_square (Float d) = Inr (Float \<bar>d\<bar>)"
    by (rule root_of_square_Float [OF assms(6,7)])
  show ?thesis
    using assms(1,2)
    by (simp add: ramp_step_def get_source_voltage_idle sub gap
        greater_than_number [OF assms(3)] float_plus_number [OF assms(3,4)]
        float_minus_number [OF assms(3,4)] del: root_of_square.simps)
qed

lemma rounded_normal:
  assumes "2 powi e \<le> \<bar>x\<bar>" and "\<bar>x\<bar> < 2 powi (e + 1)" and "- 1022 \<le> e" and "e < 1023"
  shows "rounded x = Float (2 powi (e - 52) * of_int (round_half_even (x / 2 powi (e - 52))))"
proof -
  have "(2::real) powi (e + 1) \<le> 2 powi 1023"
    using assms(4) by (intro power_int_increasing) simp_all
  with assms(2) have "\<bar>x\<bar> \<le> 2 powi 1023" by linarith
  then have "\<not> too_large x"
    by (rule not_too_large) simp_all
  moreover have "quantum x = 2 powi (e - 52)"
    by (rule quantum_normal [OF assms(1,2,3)])
  ultimately show ?thesis
    by (simp add: rounded_def round_double_def)
qed

lemma ramp_pass:
  assumes "ramp_step voltage self = Some (Return False self')"
    and "time_sleep self' = Some (Return () self')"
  shows "ramp voltage self = ramp voltage self'"
  by (subst ramp.simps) (simp add: assms)

lemma ramp_last:
  assumes "ramp_step voltage self = Some (Return True self')"
  shows "ramp voltage self = Some (Return () self')"
  by (subst ramp.simps) (simp add: assms)

lemma ramp_stuck_step:
  assumes stuck: "\<And>s. I s \<Longrightarrow> \<exists>s'. ramp_step voltage s = Some (Return False s')
                    \<and> time_sleep s' = Some (Return () s') \<and> I s'"
    and IH: "\<And>v s y. again v s = Some y \<Longrightarrow> \<not> (v = voltage \<and> I s)"
    and body: "(case ramp_step v self of
                  None \<Rightarrow> None
                | Some (Raise e s1) \<Rightarrow> Some (Raise e s1)
                | Some (Return left s1) \<Rightarrow>
                    if left then Some (Return () s1)
                    else
                      (case time_sleep s1 of
                         None \<Rightarrow> None
                       | Some (Raise e s2) \<Rightarrow> Some (Raise e s2)
                       | Some (Return u s2) \<Rightarrow> again v s2)) = Some r"
  shows "\<not> (v = voltage \<and> I self)"
proof
  assume "v = voltage \<and> I self"
  then have v: "v = voltage" and "I self" by simp_all
  from stuck [OF \<open>I self\<close>] obtain s' where
    s': "ramp_step voltage self = Some (Return False s')" "time_sleep s' = Some (Return () s')" "I s'"
    by blast
  with body v have "again voltage s' = Some r" by simp
  from IH [OF this] s'(3) show False by simp
qed

lemma ramp_stuck:
  assumes "\<And>s. I s \<Longrightarrow> \<exists>s'. ramp_step voltage s = Some (Return False s')
                    \<and> time_sleep s' = Some (Return () s') \<and> I s'"
    and "I self"
  shows "ramp voltage self = None"
proof (cases "ramp voltage self")
  case None
  then show ?thesis .
next
  case (Some r)
  have "\<not> (voltage = voltage \<and> I self)"
    by (rule ramp.raw_induct [where P = "\<lambda>v s y. \<not> (v = voltage \<and> I s)", OF _ Some])
       (rule ramp_stuck_step [OF assms(1)])
  with assms(2) show ?thesis by simp
qed

lemma is_double_one [simp]: "is_double 1"
  using is_double_of_int [of 1] by simp

lemma is_double_numeral_small: "\<bar>numeral n :: int\<bar> < 2 ^ 53 \<Longrightarrow> is_double (numeral n)"
  using is_double_of_int [of "numeral n"] by simp

lemma lab_ramp_parameters: "ramp_parameters (lab_controller out level) (5 / 2) 10"
proof -
  have "is_double (5 / 2)"
    by (rule is_double_multiple [of _ 5 "- 1"]) simp_all
  moreover have "is_double 10"
    by (rule is_double_numeral_small) simp
  ultimately show ?thesis
    by (simp add: ramp_parameters_def lab_controller_def)
qed



lemma lab_on_grid: "on_grid (- 1) 0" "on_grid (- 1) (- 10)" "on_grid (- 1) (5 / 2)"
  "on_grid (- 1) (- 8)" "on_grid (- 1) 10"
  by (simp_all add: on_grid_def)

lemma lab_level [simp]: "volt_level (resource (lab_controller out level)) = Float level"
  by (simp add: lab_controller_def lab_instrument_def)





lemma float_of_int_unit [simp]:
  "float_of_int 1 = Inr (Float 1)" "float_of_int (- 1) = Inr (Float (- 1))"
  using float_of_int_double [of 1] float_of_int_double [of "- 1"] by simp_all

lemma times_polarity_unit:
  assumes "p = 1 \<or> p = - 1" and "is_double m"
  shows "times_polarity p (Float m) = Inr (Float (of_int p * m))"
  using assms rounded_double [of m] rounded_double [of "- m"]
  by (auto simp add: times_polarity_def)

lemma times_polarity_zero:
  "times_polarity p (Float 0) =
     (if too_large (of_int p) then Inl OverflowError else Inr (Float 0))"
  by (simp add: times_polarity_def float_of_int_def)

lemma square_root_of_square_zero [simp]: "square_root_of_square (PyInt 0) = Inr (Float 0)"
  by (simp add: too_large_def)

lemma safe_set_source_voltage_off:
  assumes "idle self" and "polarity self = 1 \<or> polarity self = - 1"
    and "number_value requested = Some x" and "is_double x"
    and "x = 0 \<or> 2 powi (- 511) \<le> \<bar>x\<bar> \<and> \<bar>x\<bar> < 2 powi 511"
    and "output_answer (resource self) = Some 0"
  shows "SafeForLGADs_set_source_voltage requested self =
           Some (Return () (sent (SOURCE_VOLT_LEV (Float (of_int (polarity self) * \<bar>x\<bar>))) (asked OUTPUT_STATE self)))"
proof -
  have "is_double \<bar>x\<bar>" using assms(4) by simp
  from times_polarity_unit [OF assms(2) this] show ?thesis
    using assms(1,6)
    by (simp add: SafeForLGADs_set_source_voltage_def square_root_of_square_number [OF assms(3,4,5)]
        output_prop_idle)
qed

lemma safe_set_source_voltage_on:
  assumes "idle self" and "polarity self = 1 \<or> polarity self = - 1"
    and "number_value requested = Some x" and "is_double x"
    and "x = 0 \<or> 2 powi (- 511) \<le> \<bar>x\<bar> \<and> \<bar>x\<bar> < 2 powi 511"
    and "output_answer (resource self) = Some 1"
  shows "SafeForLGADs_set_source_voltage requested self =
           ramp (Float (of_int (polarity self) * \<bar>x\<bar>)) (asked OUTPUT_STATE self)"
proof -
  have "is_double \<bar>x\<bar>" using assms(4) by simp
  from times_polarity_unit [OF assms(2) this] show ?thesis
    using assms(1,6)
    by (simp add: SafeForLGADs_set_source_voltage_def square_root_of_square_number [OF assms(3,4,5)]
        output_prop_idle)
qed

lemma on_grid_signed:
  assumes "p = 1 \<or> p = - 1" and "on_grid k x"
  shows "on_grid k (of_int p * \<bar>x\<bar>)"
  using assms by auto

text \<open>
  Claim C2, as stated, at a requested voltage of \<open>2\<^sup>-\<^sup>6\<^sup>0\<^sup>0\<close> V, a double, with negative polarity
  and the output Off. The square underflows to 0, so the call returns after writing a
  level of 0, which is not \<open>polarity * \<bar>requested\<bar>\<close>.
\<close>

theorem set_source_voltage_counterexample:
  "SafeForLGADs_set_source_voltage (PyFloat (Float (2 powi (- 600)))) (lab_controller 0 0) =
     Some (Return () (sent (SOURCE_VOLT_LEV (Float 0)) (asked OUTPUT_STATE (lab_controller 0 0))))
   \<and> is_double (2 powi (- 600))
   \<and> of_int (polarity (lab_controller 0 0)) * \<bar>2 powi (- 600)\<bar> \<noteq> (0::real)"
proof -
  have square: "(2::real) powi (- 600) * 2 powi (- 600) = 2 powi (- 1200)"
    by (simp add: power_int_add [symmetric])
  have tiny: "\<bar>(2::real) powi (- 1200)\<bar> < 2 powi (- 1022)"
    by (simp add: power_int_strict_increasing)
  have "(2::real) powi (- 1200) / 2 powi (- 1074) = 2 powi (- 126)"
    by (simp add: power_int_diff [symmetric])
  then have zero: "round_double (2 powi (- 1200)) = 0"
    using round_double_subnormal [OF tiny] by (simp add: round_half_even_def)
  then have "\<not> too_large (2 powi (- 1200))"
    by (simp add: too_large_def)
  with zero have "root_of_square (Float (2 powi (- 600))) = Inr (Float 0)"
    by (simp add: square)
  moreover have "times_polarity (- 1) (Float 0) = Inr (Float 0)"
    by (simp add: times_polarity_def)
  moreover have "polarity (lab_controller 0 0) = - 1"
    "output_answer (resource (lab_controller 0 0)) = Some 0"
    by (simp_all add: lab_controller_def lab_instrument_def)
  ultimately have "SafeForLGADs_set_source_voltage (PyFloat (Float (2 powi (- 600)))) (lab_controller 0 0) =
     Some (Return () (sent (SOURCE_VOLT_LEV (Float 0)) (asked OUTPUT_STATE (lab_controller 0 0))))"
    by (simp add: SafeForLGADs_set_source_voltage_def output_prop_idle del: root_of_square.simps)
  moreover have "is_double (2 powi (- 600))"
    by (rule is_double_multiple [of _ 1 "- 600"]) simp_all
  moreover have "of_int (polarity (lab_controller 0 0)) * \<bar>2 powi (- 600)\<bar> \<noteq> (0::real)"
    by (simp add: lab_controller_def)
  ultimately show ?thesis
    by blast
qed

text \<open>
  Claim C2, amended. Take both flags clear, a polarity of 1 or -1, and a requested voltage
  that is a float or an \<open>int\<close> whose value is a double and is 0 or of a magnitude from
  \<open>2\<^sup>-\<^sup>5\<^sup>1\<^sup>1\<close> to \<open>2\<^sup>5\<^sup>1\<^sup>1\<close>, so that its square neither underflows nor overflows. With the
  output Off, \<open>set_source_voltage\<close> of the safe class returns after one direct write of
  \<open>polarity * \<bar>requested\<bar>\<close>. With the output On, whenever the call returns, the last voltage
  it wrote is \<open>polarity * \<bar>requested\<bar>\<close> and so is the level of the instrument afterwards; and
  the call does return when the ramp parameters are positive numbers with a pause that
  \<open>time.sleep\<close> accepts and the starting level, the requested voltage and \<open>volt_step\<close> are
  whole multiples of one power of two of at most 51 bits.
\<close>

theorem set_source_voltage_reaches_target:
  assumes "idle self" and "polarity self = 1 \<or> polarity self = - 1"
    and "number_value requested = Some x" and "is_double x"
    and "x = 0 \<or> 2 powi (- 511) \<le> \<bar>x\<bar> \<and> \<bar>x\<bar> < 2 powi 511"
  shows "(output_answer (resource self) = Some 0 \<longrightarrow>
            SafeForLGADs_set_source_voltage requested self =
              Some (Return ()
                (sent (SOURCE_VOLT_LEV (Float (of_int (polarity self) * \<bar>x\<bar>))) (asked OUTPUT_STATE self))))
       \<and> (output_answer (resource self) = Some 1 \<longrightarrow>
            (\<forall>self'. SafeForLGADs_set_source_voltage requested self = Some (Return () self') \<longrightarrow>
               (\<exists>evs. traffic (resource self') = traffic (resource self) @ evs
                  \<and> voltages (written evs) \<noteq> []
                  \<and> last (voltages (written evs)) = Float (of_int (polarity self) * \<bar>x\<bar>)
                  \<and> volt_level (resource self') = Float (of_int (polarity self) * \<bar>x\<bar>))))
       \<and> (output_answer (resource self) = Some 1 \<and> volt_level (resource self) = Float level
            \<and> ramp_parameters self step slew
            \<and> on_grid k level \<and> on_grid k x \<and> on_grid k step \<longrightarrow>
            (\<exists>self'. SafeForLGADs_set_source_voltage requested self = Some (Return () self')))"
proof (intro conjI impI allI)
  assume "output_answer (resource self) = Some 0"
  then show "SafeForLGADs_set_source_voltage requested self =
      Some (Return ()
        (sent (SOURCE_VOLT_LEV (Float (of_int (polarity self) * \<bar>x\<bar>))) (asked OUTPUT_STATE self)))"
    by (rule safe_set_source_voltage_off [OF assms])
next
  fix self'
  assume on: "output_answer (resource self) = Some 1"
    and returned: "SafeForLGADs_set_source_voltage requested self = Some (Return () self')"
  let ?target = "Float (of_int (polarity self) * \<bar>x\<bar>)"
  from returned have "ramp ?target (asked OUTPUT_STATE self) = Some (Return () self')"
    unfolding safe_set_source_voltage_on [OF assms on] .
  from ramp_outcome [OF this] obtain evs where
    "traffic (resource self') = traffic (resource (asked OUTPUT_STATE self)) @ evs"
    "voltages (written evs) \<noteq> []" "last (voltages (written evs)) = ?target"
    "volt_level (resource self') = ?target"
    by auto
  then show "\<exists>evs. traffic (resource self') = traffic (resource self) @ evs
      \<and> voltages (written evs) \<noteq> []
      \<and> last (voltages (written evs)) = ?target
      \<and> volt_level (resource self') = ?target"
    by (intro exI [of _ "Query OUTPUT_STATE # evs"]) simp
next
  assume "output_answer (resource self) = Some 1 \<and> volt_level (resource self) = Float level
      \<and> ramp_parameters self step slew
      \<and> on_grid k level \<and> on_grid k x \<and> on_grid k step"
  then have on: "output_answer (resource self) = Some 1"
    and ramp: "volt_level (resource self) = Float level" "ramp_parameters self step slew"
      "on_grid k level" "on_grid k x" "on_grid k step"
    by simp_all
  let ?self1 = "asked OUTPUT_STATE self"
  have "idle ?self1" "volt_level (resource ?self1) = Float level" "ramp_parameters ?self1 step slew"
    using assms(1) ramp(1,2) by simp_all
  from ramp_total [OF this ramp(3) on_grid_signed [OF assms(2) ramp(4)] ramp(5)]
  show "\<exists>self'. SafeForLGADs_set_source_voltage requested self = Some (Return () self')"
    unfolding safe_set_source_voltage_on [OF assms on] by blast
qed

lemma lab_polarity [simp]: "polarity (lab_controller out level) = - 1"
  by (simp add: lab_controller_def)

lemma lab_output [simp]: "output_answer (resource (lab_controller out level)) = Some out"
  by (simp add: lab_controller_def lab_instrument_def)

theorem set_source_voltage_reaches_target_witness:
  "idle (lab_controller 0 0) \<and> polarity (lab_controller 0 0) = - 1
   \<and> number_value (PyFloat (Float 10)) = Some 10 \<and> is_double 10
   \<and> 2 powi (- 511) \<le> \<bar>10 :: real\<bar> \<and> \<bar>10 :: real\<bar> < 2 powi 511
   \<and> output_answer (resource (lab_controller 0 0)) = Some 0
   \<and> SafeForLGADs_set_source_voltage (PyFloat (Float 10)) (lab_controller 0 0) =
       Some (Return () (sent (SOURCE_VOLT_LEV (Float (- 10))) (asked OUTPUT_STATE (lab_controller 0 0))))
   \<and> idle (lab_controller 1 0) \<and> number_value (PyInt (- 10)) = Some (- 10) \<and> is_double (- 10)
   \<and> output_answer (resource (lab_controller 1 0)) = Some 1
   \<and> volt_level (resource (lab_controller 1 0)) = Float 0
   \<and> ramp_parameters (lab_controller 1 0) (5 / 2) 10
   \<and> on_grid (- 1) 0 \<and> on_grid (- 1) (- 10) \<and> on_grid (- 1) (5 / 2)
   \<and> (\<exists>self' evs. SafeForLGADs_set_source_voltage (PyInt (- 10)) (lab_controller 1 0) = Some (Return () self')
        \<and> traffic (resource self') = traffic (resource (lab_controller 1 0)) @ evs
        \<and> voltages (written evs) \<noteq> []
        \<and> last (voltages (written evs)) = Float (- 10)
        \<and> volt_level (resource self') = Float (- 10))"
proof -
  have ten: "is_double 10" "is_double (- 10)"
    using is_double_numeral_small [of "num.Bit0 (num.Bit1 (num.Bit0 num.One))"] by simp_all
  have range: "(10::real) = 0 \<or> 2 powi (- 511) \<le> \<bar>10 :: real\<bar> \<and> \<bar>10 :: real\<bar> < 2 powi 511"
    "(- 10::real) = 0 \<or> 2 powi (- 511) \<le> \<bar>- 10 :: real\<bar> \<and> \<bar>- 10 :: real\<bar> < 2 powi 511"
    by simp_all
  have pol: "polarity (lab_controller out level) = 1 \<or> polarity (lab_controller out level) = - 1"
    for out level by simp
  note off = set_source_voltage_reaches_target [of "lab_controller 0 0" "PyFloat (Float 10)" 10,
      OF idle_lab_controller pol _ ten(1) range(1)]
  note on = set_source_voltage_reaches_target [of "lab_controller 1 0" "PyInt (- 10)" "- 10" 0 "5 / 2" 10 "- 1",
      OF idle_lab_controller pol _ ten(2) range(2)]
  have a: "SafeForLGADs_set_source_voltage (PyFloat (Float 10)) (lab_controller 0 0) =
       Some (Return () (sent (SOURCE_VOLT_LEV (Float (- 10))) (asked OUTPUT_STATE (lab_controller 0 0))))"
    using off by simp
  from on lab_ramp_parameters [of 1 0] lab_on_grid obtain self' where
    r: "SafeForLGADs_set_source_voltage (PyInt (- 10)) (lab_controller 1 0) = Some (Return () self')"
    by auto
  with on have "\<exists>evs. traffic (resource self') = traffic (resource (lab_controller 1 0)) @ evs
        \<and> voltages (written evs) \<noteq> []
        \<and> last (voltages (written evs)) = Float (- 10)
        \<and> volt_level (resource self') = Float (- 10)"
    by simp
  with r have b: "\<exists>self' evs. SafeForLGADs_set_source_voltage (PyInt (- 10)) (lab_controller 1 0) = Some (Return () self')
        \<and> traffic (resource self') = traffic (resource (lab_controller 1 0)) @ evs
        \<and> voltages (written evs) \<noteq> []
        \<and> last (voltages (written evs)) = Float (- 10)
        \<and> volt_level (resource self') = Float (- 10)"
    by blast
  show ?thesis
    using a b ten range lab_ramp_parameters [of 1 0] lab_on_grid
    by simp
qed

lemma too_large_zero [simp]: "\<not> too_large 0"
  by (simp add: too_large_def)

lemma safe_set_output_off_on:
  assumes "idle self" and "output_answer (resource self) = Some 1"
  shows "SafeForLGADs_set_output ''off'' self =
     (if too_large (of_int (polarity self)) then Some (Raise OverflowError (asked OUTPUT_STATE self))
      else and_then (ramp (Float 0) (asked OUTPUT_STATE (asked OUTPUT_STATE self)))
             (\<lambda>_ self. set_output ''off'' self))"
  using assms
  by (simp add: SafeForLGADs_set_output_def output_prop_idle SafeForLGADs_set_source_voltage_def
      times_polarity_zero)

lemma set_output_off_idle:
  "idle self \<Longrightarrow> set_output ''off'' self = Some (Return () (sent (OUTPUT ''OFF'') self))"
  by (simp add: set_output_def write_cmd_idle)



section \<open>What a call leaves alone\<close>

lemma query_frame:
  "query q reply self = Some r \<Longrightarrow> settings (final_state r) = settings self"
  by (cases "idle self") (auto simp add: query_idle query_busy)

lemma write_cmd_frame:
  "write_cmd msg self = Some r \<Longrightarrow> settings (final_state r) = settings self"
  by (auto simp add: write_cmd_def settings_def Let_def split: if_splits)

lemma read_cmd_frame:
  "read_cmd reply self = Some r \<Longrightarrow> settings (final_state r) = settings self"
  by (auto simp add: read_cmd_def settings_def Let_def split: if_splits)

lemma evaluate_frame:
  "evaluate v self = Some r \<Longrightarrow> final_state r = self"
  by (auto simp add: evaluate_def split: sum.splits)

lemma and_then_frame:
  assumes "and_then m f = Some r"
    and "\<And>r1. m = Some r1 \<Longrightarrow> settings (final_state r1) = settings self"
    and "\<And>a s. f a s = Some r \<Longrightarrow> settings (final_state r) = settings s"
  shows "settings (final_state r) = settings self"
proof (cases m)
  case None
  with assms(1) show ?thesis by simp
next
  case (Some r1)
  show ?thesis
  proof (cases r1)
    case (Raise e s)
    with Some assms(1) assms(2) [OF Some] show ?thesis by auto
  next
    case (Return a s)
    with Some assms(1) have "f a s = Some r" by simp
    from assms(3) [OF this] assms(2) [OF Some] Return show ?thesis by simp
  qed
qed

lemma discard_frame:
  assumes "discard m = Some r" and "\<And>r1. m = Some r1 \<Longrightarrow> settings (final_state r1) = settings self"
  shows "settings (final_state r) = settings self"
  using assms by (auto simp add: discard_def and_then_def split: option.splits outcome.splits)

lemma output_prop_frame:
  assumes "output_prop self = Some r"
  shows "settings (final_state r) = settings self"
  using assms unfolding output_prop_def
  by (rule and_then_frame) (auto dest: query_frame split: option.splits if_splits)

lemma set_output_frame:
  "set_output state self = Some r \<Longrightarrow> settings (final_state r) = settings self"
  by (auto simp add: set_output_def dest: write_cmd_frame split: if_splits)

lemma set_source_voltage_frame:
  "set_source_voltage volts self = Some r \<Longrightarrow> settings (final_state r) = settings self"
  by (auto simp add: set_source_voltage_def settings_def split: option.splits)

lemma set_source_current_limit_frame:
  "set_source_current_limit amperes self = Some r \<Longrightarrow> settings (final_state r) = settings self"
  by (auto simp add: set_source_current_limit_def settings_def split: option.splits)

lemma beep_frame:
  "beep spelled frequency time self = Some r \<Longrightarrow> settings (final_state r) = settings self"
  by (auto simp add: beep_def settings_def split: option.splits if_splits)

lemma get_source_voltage_frame:
  "get_source_voltage self = Some r \<Longrightarrow> settings (final_state r) = settings self"
  by (auto simp add: get_source_voltage_def dest: query_frame)

lemma measure_voltage_frame:
  "measure_voltage self = Some r \<Longrightarrow> settings (final_state r) = settings self"
  by (auto simp add: measure_voltage_def dest: query_frame)

lemma safe_set_source_voltage_frame:
  assumes "SafeForLGADs_set_source_voltage volts self = Some r"
  shows "settings (final_state r) = settings self"
  using assms unfolding SafeForLGADs_set_source_voltage_def
proof (rule and_then_frame)
  fix r1
  assume "evaluate (square_root_of_square volts) self = Some r1"
  then show "settings (final_state r1) = settings self"
    by (simp add: evaluate_frame)
next
  fix magnitude s
  assume "and_then (evaluate (times_polarity (polarity s) magnitude) s)
            (\<lambda>voltage self. and_then (output_prop self)
               (\<lambda>out self. if out = ''off'' then set_source_voltage (PyFloat voltage) self
                            else ramp voltage self)) = Some r"
  then show "settings (final_state r) = settings s"
  proof (rule and_then_frame)
    fix r1
    assume "evaluate (times_polarity (polarity s) magnitude) s = Some r1"
    then show "settings (final_state r1) = settings s"
      by (simp add: evaluate_frame)
  next
    fix voltage s'
    assume "and_then (output_prop s')
              (\<lambda>out self. if out = ''off'' then set_source_voltage (PyFloat voltage) self
                           else ramp voltage self) = Some r"
    then show "settings (final_state r) = settings s'"
      by (rule and_then_frame)
         (auto dest: output_prop_frame ramp_frame set_source_voltage_frame split: if_splits)
  qed
qed

lemma safe_set_output_frame:
  assumes "SafeForLGADs_set_output state self = Some r"
  shows "settings (final_state r) = settings self"
proof (cases "lower state = ''off''")
  case True
  with assms have "and_then (output_prop self) (\<lambda>out self.
          if out = ''off'' then Some (Return () self)
          else
            and_then (SafeForLGADs_set_source_voltage (PyInt 0) self) (\<lambda>_ self.
              set_output state self)) = Some r"
    by (simp add: SafeForLGADs_set_output_def)
  then show ?thesis
  proof (rule and_then_frame)
    fix out s
    assume "(if out = ''off'' then Some (Return () s)
             else and_then (SafeForLGADs_set_source_voltage (PyInt 0) s) (\<lambda>_ self. set_output state self)) = Some r"
    then show "settings (final_state r) = settings s"
    proof (cases "out = ''off''")
      case True
      with \<open>(if out = ''off'' then _ else _) = Some r\<close> show ?thesis by auto
    next
      case False
      with \<open>(if out = ''off'' then _ else _) = Some r\<close>
      have "and_then (SafeForLGADs_set_source_voltage (PyInt 0) s) (\<lambda>_ self. set_output state self) = Some r"
        by simp
      then show ?thesis
        by (rule and_then_frame) (auto dest: safe_set_source_voltage_frame set_output_frame)
    qed
  qed (rule output_prop_frame)
next
  case False
  with assms have "and_then (output_prop self) (\<lambda>out self.
          if out = ''on'' then Some (Return () self)
          else
            and_then (get_source_voltage self) (\<lambda>setted_voltage self.
              and_then (set_source_voltage (PyInt 0) self) (\<lambda>_ self.
                and_then (set_output state self) (\<lambda>_ self.
                  SafeForLGADs_set_source_voltage (PyFloat setted_voltage) self)))) = Some r"
    by (simp add: SafeForLGADs_set_output_def)
  then show ?thesis
  proof (rule and_then_frame)
    fix out s
    assume branch: "(if out = ''on'' then Some (Return () s)
             else and_then (get_source_voltage s) (\<lambda>setted_voltage self.
              and_then (set_source_voltage (PyInt 0) self) (\<lambda>_ self.
                and_then (set_output state self) (\<lambda>_ self.
                  SafeForLGADs_set_source_voltage (PyFloat setted_voltage) self)))) = Some r"
    show "settings (final_state r) = settings s"
    proof (cases "out = ''on''")
      case True
      with branch show ?thesis by auto
    next
      case False
      with branch
      have "and_then (get_source_voltage s) (\<lambda>setted_voltage self.
              and_then (set_source_voltage (PyInt 0) self) (\<lambda>_ self.
                and_then (set_output state self) (\<lambda>_ self.
                  SafeForLGADs_set_source_voltage (PyFloat setted_voltage) self))) = Some r"
        by simp
      then show ?thesis
      proof (rule and_then_frame)
        fix v s1
        assume "and_then (set_source_voltage (PyInt 0) s1) (\<lambda>_ self.
                and_then (set_output state self) (\<lambda>_ self.
                  SafeForLGADs_set_source_voltage (PyFloat v) self)) = Some r"
        then show "settings (final_state r) = settings s1"
        proof (rule and_then_frame)
          fix u s2
          assume "and_then (set_output state s2) (\<lambda>_ self.
                  SafeForLGADs_set_source_voltage (PyFloat v) self) = Some r"
          then show "settings (final_state r) = settings s2"
            by (rule and_then_frame) (auto dest: safe_set_source_voltage_frame set_output_frame)
        qed (rule set_source_voltage_frame)
      qed (rule get_source_voltage_frame)
    qed
  qed (rule output_prop_frame)
qed

lemma perform_frame:
  assumes "perform spelled op self = Some r"
  shows "settings (final_state r) = settings self"
proof (cases op)
  case (Write_op msg)
  with assms show ?thesis by (auto dest: write_cmd_frame)
next
  case Read_op
  with assms show ?thesis by (auto elim: discard_frame dest: read_cmd_frame)
next
  case (Query_op q)
  with assms show ?thesis by (auto elim: discard_frame dest: query_frame)
next
  case Get_output
  with assms show ?thesis by (auto elim: discard_frame dest: output_prop_frame)
next
  case (Set_output state)
  with assms show ?thesis by (auto dest: safe_set_output_frame)
next
  case Get_source_voltage
  with assms show ?thesis
    by (auto elim: discard_frame dest: get_source_voltage_frame)
next
  case (Set_source_voltage volts)
  with assms show ?thesis by (auto dest: safe_set_source_voltage_frame)
next
  case Get_source_current_limit
  with assms show ?thesis
    by (auto simp add: get_source_current_limit_def elim: discard_frame dest: query_frame)
next
  case (Set_source_current_limit amperes)
  with assms show ?thesis by (auto dest: set_source_current_limit_frame)
next
  case Measure_voltage
  with assms show ?thesis
    by (auto elim: discard_frame dest: measure_voltage_frame)
next
  case Measure_current
  with assms show ?thesis
    by (auto simp add: measure_current_def elim: discard_frame dest: query_frame)
next
  case (Beep frequency time)
  with assms show ?thesis by (auto dest: beep_frame)
next
  case (Super_set_source_voltage volts)
  with assms show ?thesis by (auto dest: set_source_voltage_frame)
next
  case (Super_set_output state)
  with assms show ?thesis by (auto dest: set_output_frame)
qed (use assms in auto)

lemma constructed_Built:
  "constructed r res registry = Built obj registry' \<longleftrightarrow> (\<exists>a. r = Return a obj) \<and> registry' = registry"
  by (cases r) auto

lemma init_registers:
  assumes "Keithley2470_init m1 m2 rs opened subclass_fields registry = Some (Built obj registry')"
  shows "registry' = registry @ [Atexit_shutdown]"
  using assms
  by (auto simp add: Keithley2470_init_def Let_def constructed_Built split: if_splits)

lemma init_identity_mismatch:
  assumes "\<not> contains ''KEITHLEY'' (idn_answer opened) \<or> \<not> contains ''MODEL 2470'' (idn_answer opened)"
  shows "Keithley2470_init m1 m2 rs opened subclass_fields registry =
           Some (Failed RuntimeError (resource_asked IDN opened) registry)"
  using assms by (auto simp add: Keithley2470_init_def Let_def)

lemma safe_new_settings:
  assumes "SafeForLGADs_new rs polarity_arg slew volt opened registry = Some (Built obj registry')"
  shows "slew_rate obj = slew \<and> volt_step obj = volt
         \<and> polarity obj = (if polarity_arg = PyStr ''positive'' then 1 else - 1)"
proof -
  let ?pol = "if polarity_arg = PyStr ''positive'' then 1 else - 1 :: int"
  let ?self0 = "\<lparr>resource_str = rs, resource = resource_asked IDN opened,
                  is_writing = False, is_reading = False, idn = idn_answer opened,
                  \<dots> = Keithley2470SafeForLGADs.fields ?pol slew volt\<rparr>"
  let ?chain = "and_then (measure_voltage ?self0) (\<lambda>_ self.
                  and_then (SafeForLGADs_set_source_voltage (PyInt 0) self) (\<lambda>_ self.
                    SafeForLGADs_set_output ''off'' self))"
  from assms obtain a where chain: "?chain = Some (Return a obj)"
    by (auto simp add: SafeForLGADs_new_def Keithley2470_init_def Let_def constructed_Built
        split: if_splits)
  have "settings (final_state (Return a obj)) = settings ?self0"
    using chain
  proof (rule and_then_frame)
    fix r1 assume "measure_voltage ?self0 = Some r1"
    then show "settings (final_state r1) = settings ?self0" by (rule measure_voltage_frame)
  next
    fix u s
    assume "and_then (SafeForLGADs_set_source_voltage (PyInt 0) s)
              (\<lambda>_ self. SafeForLGADs_set_output ''off'' self) = Some (Return a obj)"
    then show "settings (final_state (Return a obj)) = settings s"
      by (rule and_then_frame) (auto dest: safe_set_source_voltage_frame safe_set_output_frame)
  qed
  then show ?thesis
    by (simp add: settings_def Keithley2470SafeForLGADs.defs)
qed

section \<open>Construction and the ramp parameters\<close>

lemma contains_lab_idn:
  "contains ''KEITHLEY'' (idn_answer (lab_instrument out level))"
  "contains ''MODEL 2470'' (idn_answer (lab_instrument out level))"
  by (simp_all add: lab_instrument_def)

lemma times_polarity_unit_zero [simp]:
  "times_polarity 1 (Float 0) = Inr (Float 0)" "times_polarity (- 1) (Float 0) = Inr (Float 0)"
  by (simp_all add: times_polarity_def)

lemma safe_new_on_lab_off:
  "SafeForLGADs_new ''USB0::1510::9328::04481179::0::INSTR'' (PyStr ''negative'')
     (PyInt 10) (PyFloat (Float (5 / 2))) (lab_instrument 0 0) [] =
   Some (Built
     (asked OUTPUT_STATE (sent (SOURCE_VOLT_LEV (Float 0)) (asked OUTPUT_STATE
        (asked MEASURE_VOLT (asked IDN (lab_controller 0 0))))))
     [Atexit_shutdown])"
  by (simp add: SafeForLGADs_new_def Keithley2470_init_def contains_lab_idn measure_voltage_def
      query_def SafeForLGADs_set_source_voltage_def SafeForLGADs_set_output_def output_prop_def
      asked_def sent_def lab_controller_def Keithley2470SafeForLGADs.defs
      resource_asked_def resource_write_def lab_instrument_def)

lemma plain_new_on_lab_off:
  "Keithley2470_new ''USB0::1510::9328::04481179::0::INSTR'' (lab_instrument 0 0) [] =
     Some (Built
       (sent (OUTPUT ''OFF'') (sent (SOURCE_VOLT_LEV (Float 0)) (asked MEASURE_VOLT (asked IDN (lab_plain 0 0)))))
       [Atexit_shutdown])"
  by (simp add: Keithley2470_new_def Keithley2470_init_def contains_lab_idn measure_voltage_def
      query_def set_output_def write_cmd_def set_source_voltage_def
      asked_def sent_def lab_plain_def
      resource_asked_def resource_write_def lab_instrument_def)




lemma safe_new_unchecked:
  "SafeForLGADs_new ''USB0::1510::9328::04481179::0::INSTR'' (PyStr ''positive'') (PyInt 0) (PyInt (- 1))
     (lab_instrument 0 0) [] =
   Some (Built
     (asked OUTPUT_STATE (sent (SOURCE_VOLT_LEV (Float 0)) (asked OUTPUT_STATE
        (asked MEASURE_VOLT (asked IDN
           ((lab_controller 0 0)\<lparr>polarity := 1, slew_rate := PyInt 0, volt_step := PyInt (- 1)\<rparr>))))))
     [Atexit_shutdown])"
  by (simp add: SafeForLGADs_new_def Keithley2470_init_def contains_lab_idn measure_voltage_def
      query_def SafeForLGADs_set_source_voltage_def SafeForLGADs_set_output_def output_prop_def
      asked_def sent_def lab_controller_def Keithley2470SafeForLGADs.defs
      resource_asked_def resource_write_def lab_instrument_def)

text \<open>
  Claim C9, as stated, at a construction with \<open>slew_rate=0\<close> and \<open>volt_step=-1\<close> on an
  instrument whose output is Off: the constructor returns an instance, whose slew rate is
  0 and whose voltage step is -1.
\<close>

theorem ramp_parameters_counterexample:
  "SafeForLGADs_new ''USB0::1510::9328::04481179::0::INSTR'' (PyStr ''positive'') (PyInt 0) (PyInt (- 1))
     (lab_instrument 0 0) [] =
   Some (Built
     (asked OUTPUT_STATE (sent (SOURCE_VOLT_LEV (Float 0)) (asked OUTPUT_STATE
        (asked MEASURE_VOLT (asked IDN
           ((lab_controller 0 0)\<lparr>polarity := 1, slew_rate := PyInt 0, volt_step := PyInt (- 1)\<rparr>))))))
     [Atexit_shutdown])
   \<and> number_value (slew_rate
       (asked OUTPUT_STATE (sent (SOURCE_VOLT_LEV (Float 0)) (asked OUTPUT_STATE
          (asked MEASURE_VOLT (asked IDN
             ((lab_controller 0 0)\<lparr>polarity := 1, slew_rate := PyInt 0, volt_step := PyInt (- 1)\<rparr>))))))) = Some 0
   \<and> number_value (volt_step
       (asked OUTPUT_STATE (sent (SOURCE_VOLT_LEV (Float 0)) (asked OUTPUT_STATE
          (asked MEASURE_VOLT (asked IDN
             ((lab_controller 0 0)\<lparr>polarity := 1, slew_rate := PyInt 0, volt_step := PyInt (- 1)\<rparr>))))))) = Some (- 1)"
  using safe_new_unchecked by simp

text \<open>
  Claim C9, amended. The constructor checks neither ramp parameter: an instance that it
  returns holds \<open>slew_rate\<close> and \<open>volt_step\<close> exactly as they were passed. After
  construction no method or property of the two classes changes the polarity, the slew
  rate or the voltage step, whether it returns or raises.
\<close>

theorem ramp_parameters_kept:
  "(SafeForLGADs_new rs polarity_arg slew volt opened registry = Some (Built obj registry') \<longrightarrow>
      slew_rate obj = slew \<and> volt_step obj = volt)
   \<and> (perform spelled op self = Some r \<longrightarrow> settings (final_state r) = settings self)"
  using safe_new_settings [of rs polarity_arg slew volt opened registry obj registry']
    perform_frame [of spelled op self r]
  by blast

theorem ramp_parameters_kept_witness:
  "SafeForLGADs_new ''USB0::1510::9328::04481179::0::INSTR'' (PyStr ''negative'')
     (PyInt 10) (PyFloat (Float (5 / 2))) (lab_instrument 0 0) [] =
   Some (Built
     (asked OUTPUT_STATE (sent (SOURCE_VOLT_LEV (Float 0)) (asked OUTPUT_STATE
        (asked MEASURE_VOLT (asked IDN (lab_controller 0 0))))))
     [Atexit_shutdown])
   \<and> slew_rate (asked OUTPUT_STATE (sent (SOURCE_VOLT_LEV (Float 0)) (asked OUTPUT_STATE
        (asked MEASURE_VOLT (asked IDN (lab_controller 0 0)))))) = PyInt 10
   \<and> volt_step (asked OUTPUT_STATE (sent (SOURCE_VOLT_LEV (Float 0)) (asked OUTPUT_STATE
        (asked MEASURE_VOLT (asked IDN (lab_controller 0 0)))))) = PyFloat (Float (5 / 2))
   \<and> perform (\<lambda>s. None) (Set_output ''on'') (lab_controller 1 7) =
       Some (Return () (asked OUTPUT_STATE (lab_controller 1 7)))
   \<and> settings (asked OUTPUT_STATE (lab_controller 1 7)) = settings (lab_controller 1 7)"
proof -
  have switched: "perform (\<lambda>s. None) (Set_output ''on'') (lab_controller 1 7) =
       Some (Return () (asked OUTPUT_STATE (lab_controller 1 7)))"
    by (simp add: SafeForLGADs_set_output_def output_prop_idle)
  from safe_new_on_lab_off switched
    ramp_parameters_kept
      [where rs = "''USB0::1510::9328::04481179::0::INSTR''" and polarity_arg = "PyStr ''negative''"
         and slew = "PyInt 10" and volt = "PyFloat (Float (5 / 2))" and opened = "lab_instrument 0 0" and registry = "[]"
         and obj = "asked OUTPUT_STATE (sent (SOURCE_VOLT_LEV (Float 0)) (asked OUTPUT_STATE
            (asked MEASURE_VOLT (asked IDN (lab_controller 0 0)))))"
         and registry' = "[Atexit_shutdown]"
         and spelled = "\<lambda>s. None" and op = "Set_output ''on''" and self = "lab_controller 1 7"
         and r = "Return () (asked OUTPUT_STATE (lab_controller 1 7))"]
  show ?thesis
    by simp
qed

section \<open>Several callers on the link\<close>

lemma thread_stepI:
  assumes "i < length threads" and "line_step self (threads ! i) self' p"
    and "threads' = threads[i := p]"
  shows "thread_step (self, threads) (self', threads')"
  using thread_step.intros [OF assms(1,2)] assms(3) by simp

text \<open>
  Claim C1, at the inputs where it fails. From an instance with both flags clear:
  a thread that calls \<open>write\<close> and a thread that calls \<open>read\<close> are inside their calls into the
  resource at the same moment, because each polls only its own flag; so are a thread that
  calls \<open>query\<close> and a thread that sets the source voltage, because the setter goes past
  the flags; and so are two threads that call \<open>write\<close>, because both can poll the flag
  before either sets it.
\<close>

theorem transport_calls_overlap:
  "thread_step\<^sup>*\<^sup>* (lab_plain 0 0, [At 29, At 36])
     ((lab_plain 0 0)\<lparr>is_writing := True, is_reading := True\<rparr>, [Inside 32, Inside 39])
   \<and> on_the_link [Inside 32, Inside 39] = 2
   \<and> thread_step\<^sup>*\<^sup>* (lab_plain 0 0, [At 44, At 82])
     ((lab_plain 0 0)\<lparr>is_writing := True, is_reading := True\<rparr>, [Inside 48, Inside 83])
   \<and> on_the_link [Inside 48, Inside 83] = 2
   \<and> thread_step\<^sup>*\<^sup>* (lab_plain 0 0, [At 29, At 29])
     ((lab_plain 0 0)\<lparr>is_writing := True\<rparr>, [Inside 32, Inside 32])
   \<and> on_the_link [Inside 32, Inside 32] = 2
   \<and> idle (lab_plain 0 0)"
proof -
  let ?s = "lab_plain 0 0"
  let ?w = "(lab_plain 0 0)\<lparr>is_writing := True\<rparr>"
  let ?wr = "(lab_plain 0 0)\<lparr>is_writing := True, is_reading := True\<rparr>"
  have clear: "\<not> is_writing ?s" "\<not> is_reading ?s" "\<not> is_reading ?w"
    by (simp_all add: lab_plain_def)
  have a1: "thread_step (?s, [At 29, At 36]) (?s, [At 31, At 36])"
    by (rule thread_stepI [where i = 0 and p = "At 31"]) (simp_all add: write_pass clear)
  have a2: "thread_step (?s, [At 31, At 36]) (?w, [At 32, At 36])"
    by (rule thread_stepI [where i = 0 and p = "At 32"]) (simp_all add: write_set)
  have a3: "thread_step (?w, [At 32, At 36]) (?w, [Inside 32, At 36])"
    by (rule thread_stepI [where i = 0 and p = "Inside 32"]) (simp_all add: write_call)
  have a4: "thread_step (?w, [Inside 32, At 36]) (?w, [Inside 32, At 38])"
    by (rule thread_stepI [where i = 1 and p = "At 38"]) (simp_all add: read_pass clear)
  have a5: "thread_step (?w, [Inside 32, At 38]) (?wr, [Inside 32, At 39])"
    by (rule thread_stepI [where i = 1 and p = "At 39"]) (simp_all add: read_set)
  have a6: "thread_step (?wr, [Inside 32, At 39]) (?wr, [Inside 32, Inside 39])"
    by (rule thread_stepI [where i = 1 and p = "Inside 39"]) (simp_all add: read_call)
  have a: "thread_step\<^sup>*\<^sup>* (?s, [At 29, At 36]) (?wr, [Inside 32, Inside 39])"
    using a1 a2 a3 a4 a5 a6 by (meson rtranclp.rtrancl_into_rtrancl rtranclp.rtrancl_refl)
  have b1: "thread_step (?s, [At 44, At 82]) (?s, [At 46, At 82])"
    by (rule thread_stepI [where i = 0 and p = "At 46"]) (simp_all add: query_pass clear)
  have b2: "thread_step (?s, [At 46, At 82]) (?w, [At 47, At 82])"
    by (rule thread_stepI [where i = 0 and p = "At 47"]) (simp_all add: query_set_writing)
  have b3: "thread_step (?w, [At 47, At 82]) (?wr, [At 48, At 82])"
    by (rule thread_stepI [where i = 0 and p = "At 48"]) (simp_all add: query_set_reading)
  have b4: "thread_step (?wr, [At 48, At 82]) (?wr, [Inside 48, At 82])"
    by (rule thread_stepI [where i = 0 and p = "Inside 48"]) (simp_all add: query_call)
  have b5: "thread_step (?wr, [Inside 48, At 82]) (?wr, [Inside 48, At 83])"
    by (rule thread_stepI [where i = 1 and p = "At 83"]) (simp_all add: setter_number)
  have b6: "thread_step (?wr, [Inside 48, At 83]) (?wr, [Inside 48, Inside 83])"
    by (rule thread_stepI [where i = 1 and p = "Inside 83"]) (simp_all add: setter_call)
  have b: "thread_step\<^sup>*\<^sup>* (?s, [At 44, At 82]) (?wr, [Inside 48, Inside 83])"
    using b1 b2 b3 b4 b5 b6 by (meson rtranclp.rtrancl_into_rtrancl rtranclp.rtrancl_refl)
  have c1: "thread_step (?s, [At 29, At 29]) (?s, [At 31, At 29])"
    by (rule thread_stepI [where i = 0 and p = "At 31"]) (simp_all add: write_pass clear)
  have c2: "thread_step (?s, [At 31, At 29]) (?s, [At 31, At 31])"
    by (rule thread_stepI [where i = 1 and p = "At 31"]) (simp_all add: write_pass clear)
  have c3: "thread_step (?s, [At 31, At 31]) (?w, [At 32, At 31])"
    by (rule thread_stepI [where i = 0 and p = "At 32"]) (simp_all add: write_set)
  have "line_step ?w (At 31) (?w\<lparr>is_writing := True\<rparr>) (At 32)"
    by (rule write_set)
  then have "line_step ?w (At 31) ?w (At 32)"
    by simp
  then have c4: "thread_step (?w, [At 32, At 31]) (?w, [At 32, At 32])"
    by (intro thread_stepI [where i = 1 and p = "At 32"]) simp_all
  have c5: "thread_step (?w, [At 32, At 32]) (?w, [Inside 32, At 32])"
    by (rule thread_stepI [where i = 0 and p = "Inside 32"]) (simp_all add: write_call)
  have c6: "thread_step (?w, [Inside 32, At 32]) (?w, [Inside 32, Inside 32])"
    by (rule thread_stepI [where i = 1 and p = "Inside 32"]) (simp_all add: write_call)
  have c: "thread_step\<^sup>*\<^sup>* (?s, [At 29, At 29]) (?w, [Inside 32, Inside 32])"
    using c1 c2 c3 c4 c5 c6 by (meson rtranclp.rtrancl_into_rtrancl rtranclp.rtrancl_refl)
  have "idle ?s"
    by (simp add: idle_def lab_plain_def)
  with a b c show ?thesis
    by (simp add: on_the_link_def)
qed

end
